theory Spec2Isabelle
  imports Main "HOL-Library.Sublist"
begin

section \<open>Strings and POSIX paths\<close>

text \<open>
  File names and paths are Python \<open>str\<close> values, modelled as \<open>string\<close>; file contents are
  byte strings. The path functions are those of \<open>posixpath\<close>.
\<close>

type_synonym path = string
type_synonym bytes = string

text \<open>
  \<open>str.lower()\<close> on the ASCII letters. Other characters are left as they are: lowercasing
  a non-ASCII character never completes one of the six ASCII substrings the script looks for.
\<close>

definition lower_char :: "char \<Rightarrow> char" where
  "lower_char c =
     (case map_of (zip ''ABCDEFGHIJKLMNOPQRSTUVWXYZ'' ''abcdefghijklmnopqrstuvwxyz'') c of
        Some l \<Rightarrow> l
      | None \<Rightarrow> c)"

definition lower :: "string \<Rightarrow> string" where
  "lower s = map lower_char s"

text \<open>Python's \<open>needle in hay\<close> on strings: \<open>needle\<close> occurs as a contiguous substring.\<close>

fun str_in :: "string \<Rightarrow> string \<Rightarrow> bool" where
  "str_in needle [] = (needle = [])"
| "str_in needle (c # cs) = (prefix needle (c # cs) \<or> str_in needle cs)"

text \<open>\<open>os.path.join(a, b)\<close> for one more component, and for a list of them.\<close>

definition join2 :: "path \<Rightarrow> path \<Rightarrow> path" where
  "join2 a b =
     (if prefix ''/'' b then b
      else if a = [] \<or> last a = CHR ''/'' then a @ b
      else a @ ''/'' @ b)"

definition path_join :: "path \<Rightarrow> path list \<Rightarrow> path" where
  "path_join a ps = foldl join2 a ps"

text \<open>
  \<open>os.path.dirname(p)\<close>: everything up to and including the last slash, with trailing
  slashes removed unless nothing but slashes is left.
\<close>

definition rstrip_slash :: "path \<Rightarrow> path" where
  "rstrip_slash p = rev (dropWhile (\<lambda>c. c = CHR ''/'') (rev p))"

definition dirname :: "path \<Rightarrow> path" where
  "dirname p =
     (let head = rev (dropWhile (\<lambda>c. c \<noteq> CHR ''/'') (rev p))
      in if head \<noteq> [] \<and> head \<noteq> replicate (length head) CHR ''/'' then rstrip_slash head else head)"

text \<open>\<open>os.path.basename(p)\<close>: what follows the last slash.\<close>

definition basename :: "path \<Rightarrow> path" where
  "basename p = rev (takeWhile (\<lambda>c. c \<noteq> CHR ''/'') (rev p))"

text \<open>
  The directories above \<open>p\<close>, nearest first: \<open>dirname\<close> iterated until it is empty or
  stops changing (the root).
\<close>

function ancestors :: "path \<Rightarrow> path list" where
  "ancestors p =
     (if dirname p = [] \<or> dirname p = p then [] else dirname p # ancestors (dirname p))"
  by pat_completeness auto
termination
proof (relation "measure length")
  show "wf (measure length)" by simp
next
  fix p :: path
  assume a: "\<not> (dirname p = [] \<or> dirname p = p)"
  have strip: "\<And>q :: path. \<exists>r. q = rstrip_slash q @ r"
  proof -
    fix q :: path
    have "rev q = takeWhile (\<lambda>c. c = CHR ''/'') (rev q) @ dropWhile (\<lambda>c. c = CHR ''/'') (rev q)"
      by simp
    then have "q = rev (dropWhile (\<lambda>c. c = CHR ''/'') (rev q)) @ rev (takeWhile (\<lambda>c. c = CHR ''/'') (rev q))"
      by (metis rev_append rev_rev_ident)
    then show "\<exists>r. q = rstrip_slash q @ r"
      unfolding rstrip_slash_def by blast
  qed
  have head: "\<exists>r. p = rev (dropWhile (\<lambda>c. c \<noteq> CHR ''/'') (rev p)) @ r"
  proof -
    have "rev p = takeWhile (\<lambda>c. c \<noteq> CHR ''/'') (rev p) @ dropWhile (\<lambda>c. c \<noteq> CHR ''/'') (rev p)"
      by simp
    then have "p = rev (dropWhile (\<lambda>c. c \<noteq> CHR ''/'') (rev p)) @ rev (takeWhile (\<lambda>c. c \<noteq> CHR ''/'') (rev p))"
      by (metis rev_append rev_rev_ident)
    then show ?thesis by blast
  qed
  have "\<exists>r. p = dirname p @ r"
  proof -
    obtain r where r: "p = rev (dropWhile (\<lambda>c. c \<noteq> CHR ''/'') (rev p)) @ r"
      using head by blast
    obtain r' where r': "rev (dropWhile (\<lambda>c. c \<noteq> CHR ''/'') (rev p)) =
        rstrip_slash (rev (dropWhile (\<lambda>c. c \<noteq> CHR ''/'') (rev p))) @ r'"
      using strip by blast
    show ?thesis
    proof (cases "dirname p = rev (dropWhile (\<lambda>c. c \<noteq> CHR ''/'') (rev p))")
      case True
      then show ?thesis using r by metis
    next
      case False
      then have "dirname p = rstrip_slash (rev (dropWhile (\<lambda>c. c \<noteq> CHR ''/'') (rev p)))"
        by (simp add: dirname_def Let_def split: if_splits)
      then show ?thesis using r r' by (metis append_assoc)
    qed
  qed
  then obtain r where "p = dirname p @ r" by blast
  then have "length p = length (dirname p) + length r" "r \<noteq> []"
    using a by (metis length_append, metis append_Nil2)
  then have "length (dirname p) < length p" by simp
  then show "(dirname p, p) \<in> measure length" by simp
qed

declare ancestors.simps [simp del]

section \<open>The world the script runs in\<close>

text \<open>
  The filesystem holds regular files (path to bytes) and directories; standard output is the
  list of lines printed so far. File metadata (the timestamps \<open>copy2\<close> preserves) is not
  modelled.
\<close>

record world =
  fs_files :: "path \<rightharpoonup> bytes"
  fs_dirs :: "path set"
  stdout :: "string list"

datatype error =
  DownloadError
  | FileNotFoundError
  | SameFileError
  | FileExistsError
  | NotADirectoryError
  | IsADirectoryError

text \<open>A call either returns a value or raises; both leave a world behind.\<close>

datatype 'a outcome = Returned 'a world | Raised error world

fun world_of :: "'a outcome \<Rightarrow> world" where
  "world_of (Returned x w) = w"
| "world_of (Raised e w) = w"

fun raised :: "'a outcome \<Rightarrow> error option" where
  "raised (Returned x w) = None"
| "raised (Raised e w) = Some e"

definition print :: "string \<Rightarrow> world \<Rightarrow> world" where
  "print s w = w\<lparr>stdout := stdout w @ [s]\<rparr>"

text \<open>
  \<open>os.makedirs(name, exist_ok=exist_ok)\<close>: creates \<open>name\<close> and every missing directory above
  it. An existing directory raises \<open>FileExistsError\<close> unless \<open>exist_ok\<close>; a regular file
  at \<open>name\<close> or above it raises whatever the flag.
\<close>

definition makedirs :: "path \<Rightarrow> bool \<Rightarrow> world \<Rightarrow> unit outcome" where
  "makedirs name exist_ok w =
     (if name \<in> fs_dirs w then (if exist_ok then Returned () w else Raised FileExistsError w)
      else if fs_files w name \<noteq> None then Raised FileExistsError w
      else if list_ex (\<lambda>d. fs_files w d \<noteq> None) (ancestors name) then Raised NotADirectoryError w
      else Returned () (w\<lparr>fs_dirs := fs_dirs w \<union> set (name # ancestors name)\<rparr>))"

text \<open>
  \<open>shutil.copyfile(src, dst)\<close>: raises \<open>SameFileError\<close> when both name the same existing
  file, then opens \<open>src\<close> for reading and \<open>dst\<close> for writing (either may raise), then
  replaces whatever \<open>dst\<close> held by the bytes of \<open>src\<close>. Files are told apart by their path
  strings. The directory that is to hold \<open>dst\<close> must exist; the working directory and the
  root always do. Which error a failed open raises is decided on the path and the directory
  that is to hold it.
\<close>

definition parent_exists :: "path set \<Rightarrow> path \<Rightarrow> bool" where
  "parent_exists ds p = (list_all (\<lambda>c. c = CHR ''/'') (dirname p) \<or> dirname p \<in> ds)"

definition copyfile :: "path \<Rightarrow> path \<Rightarrow> world \<Rightarrow> unit outcome" where
  "copyfile src dst w =
     (if src = dst \<and> (fs_files w src \<noteq> None \<or> src \<in> fs_dirs w) then Raised SameFileError w
      else case fs_files w src of
        None \<Rightarrow> Raised (if src \<in> fs_dirs w then IsADirectoryError else FileNotFoundError) w
      | Some b \<Rightarrow>
          if dst \<in> fs_dirs w then Raised IsADirectoryError w
          else if \<not> parent_exists (fs_dirs w) dst then
            Raised (if fs_files w (dirname dst) \<noteq> None then NotADirectoryError
                    else FileNotFoundError) w
          else Returned () (w\<lparr>fs_files := (fs_files w)(dst \<mapsto> b)\<rparr>))"

text \<open>
  \<open>shutil.copy2(src, dst)\<close>: when \<open>dst\<close> is a directory the file goes into it under the base
  name of \<open>src\<close>; otherwise to \<open>dst\<close> itself.
\<close>

definition copy2 :: "path \<Rightarrow> path \<Rightarrow> world \<Rightarrow> unit outcome" where
  "copy2 src dst w =
     (let dst = (if dst \<in> fs_dirs w then path_join dst [basename src] else dst)
      in copyfile src dst w)"

text \<open>
  What the script is given: its own path (\<open>__file__\<close>), the download collaborator
  \<open>kagglehub.dataset_download\<close> (it returns the root of the downloaded tree or raises, and
  may change the world), and what \<open>os.walk(top)\<close> yields during the run: the
  \<open>(root, dirs, files)\<close> triples of the tree under \<open>top\<close>, in an order of the walk's own
  choosing.
\<close>

record env =
  script_file :: path
  kagglehub_dataset_download :: "string \<Rightarrow> world \<Rightarrow> path outcome"
  os_walk :: "path \<Rightarrow> (path \<times> string list \<times> string list) list"

section \<open>The script\<close>

text \<open>The inner loop, \<open>for file in files\<close>, for one \<open>root\<close>.\<close>

fun files_loop :: "path \<Rightarrow> path \<Rightarrow> string list \<Rightarrow> world \<Rightarrow> unit outcome" where
  "files_loop test_dir root [] w = Returned () w"
| "files_loop test_dir root (file # files) w =
     (let file_lower = lower file in
      if list_ex (\<lambda>ext. str_in ext file_lower) [''.jpg'', ''.jpeg'', ''.png''] then
        if list_ex (\<lambda>term. str_in term file_lower) [''xray'', ''panoramic'', ''intraoral''] then
          (let source_path = path_join root [file];
               target_name =
                 (if str_in ''xray'' file_lower then ''xray.jpg''
                  else if str_in ''panoramic'' file_lower then ''panoramic.jpg''
                  else ''intraoral.jpg'');
               target_path = path_join test_dir [target_name]
           in case copy2 source_path target_path w of
                Raised e w' \<Rightarrow> Raised e w'
              | Returned u w' \<Rightarrow>
                  files_loop test_dir root files
                    (print (''Copied '' @ file @ '' to '' @ target_name) w'))
        else files_loop test_dir root files w
      else files_loop test_dir root files w)"

text \<open>The outer loop, \<open>for root, dirs, files in os.walk(path)\<close>.\<close>

fun walk_loop ::
  "path \<Rightarrow> (path \<times> string list \<times> string list) list \<Rightarrow> world \<Rightarrow> unit outcome" where
  "walk_loop test_dir [] w = Returned () w"
| "walk_loop test_dir ((root, dirs, files) # rest) w =
     (case files_loop test_dir root files w of
        Raised e w' \<Rightarrow> Raised e w'
      | Returned u w' \<Rightarrow> walk_loop test_dir rest w')"

definition download_dataset :: "env \<Rightarrow> world \<Rightarrow> unit outcome" where
  "download_dataset E w0 =
     (case kagglehub_dataset_download E ''weiweicui/ctooth-dataset''
             (print ''Downloading CTooth dataset...'' w0) of
        Raised e w \<Rightarrow> Raised e w
      | Returned path w1 \<Rightarrow>
          (let w2 = print (''Dataset downloaded to: '' @ path) w1;
               test_dir = path_join (dirname (dirname (script_file E))) [''test'', ''images'']
           in case makedirs test_dir True w2 of
                Raised e w \<Rightarrow> Raised e w
              | Returned u w3 \<Rightarrow> walk_loop test_dir (os_walk E path) w3))"

section \<open>Vocabulary of the properties\<close>

text \<open>The two filters and the slot priority, as predicates on the lowercased name.\<close>

definition has_ext :: "string \<Rightarrow> bool" where
  "has_ext n = (str_in ''.jpg'' n \<or> str_in ''.jpeg'' n \<or> str_in ''.png'' n)"

definition has_keyword :: "string \<Rightarrow> bool" where
  "has_keyword n = (str_in ''xray'' n \<or> str_in ''panoramic'' n \<or> str_in ''intraoral'' n)"

definition matches :: "string \<Rightarrow> bool" where
  "matches file = (has_ext (lower file) \<and> has_keyword (lower file))"

definition slot_name :: "string \<Rightarrow> string" where
  "slot_name n =
     (if str_in ''xray'' n then ''xray.jpg''
      else if str_in ''panoramic'' n then ''panoramic.jpg''
      else ''intraoral.jpg'')"

text \<open>The files of a walk in the order the two loops visit them, each with its root.\<close>

definition walk_files :: "(path \<times> string list \<times> string list) list \<Rightarrow> (path \<times> string) list" where
  "walk_files ws = concat (map (\<lambda>(root, dirs, files). map (Pair root) files) ws)"

text \<open>\<open>os.walk\<close> yields bare names: not empty, no slash.\<close>

definition bare :: "string \<Rightarrow> bool" where
  "bare f = (f \<noteq> [] \<and> CHR ''/'' \<notin> set f)"

definition bare_names :: "(path \<times> string list \<times> string list) list \<Rightarrow> bool" where
  "bare_names ws = list_all (\<lambda>rf. bare (snd rf)) (walk_files ws)"

text \<open>One copy with its progress line, and a sequence of them that stops at the first raise.\<close>

definition source_of :: "path \<times> string \<Rightarrow> path" where
  "source_of rf = path_join (fst rf) [snd rf]"

definition target_of :: "path \<Rightarrow> path \<times> string \<Rightarrow> path" where
  "target_of td rf = path_join td [slot_name (lower (snd rf))]"

text \<open>
  Where the copy of a file lands when the directories are \<open>ds\<close>: in its slot, or inside
  the slot when the slot is a directory; and what it takes for a path to be written.
\<close>

definition dest_of :: "path \<Rightarrow> path set \<Rightarrow> path \<times> string \<Rightarrow> path" where
  "dest_of td ds rf =
     (if target_of td rf \<in> ds then path_join (target_of td rf) [basename (source_of rf)]
      else target_of td rf)"

definition writable :: "path set \<Rightarrow> path \<Rightarrow> bool" where
  "writable ds p = (p \<notin> ds \<and> parent_exists ds p)"

definition progress_line :: "path \<times> string \<Rightarrow> string" where
  "progress_line rf = ''Copied '' @ snd rf @ '' to '' @ slot_name (lower (snd rf))"

definition copy_step :: "path \<Rightarrow> path \<times> string \<Rightarrow> world \<Rightarrow> unit outcome" where
  "copy_step td rf w =
     (case copy2 (source_of rf) (target_of td rf) w of
        Raised e w' \<Rightarrow> Raised e w'
      | Returned u w' \<Rightarrow> Returned () (print (progress_line rf) w'))"

fun copy_each :: "path \<Rightarrow> (path \<times> string) list \<Rightarrow> world \<Rightarrow> unit outcome" where
  "copy_each td [] w = Returned () w"
| "copy_each td (rf # rest) w =
     (case copy_step td rf w of
        Raised e w' \<Rightarrow> Raised e w'
      | Returned u w' \<Rightarrow> copy_each td rest w')"

text \<open>The fixture directory of a run, its three slots, and the first step of a run.\<close>

definition fixture_dir :: "env \<Rightarrow> path" where
  "fixture_dir E = path_join (dirname (dirname (script_file E))) [''test'', ''images'']"

definition slot_paths :: "path \<Rightarrow> path set" where
  "slot_paths td =
     {path_join td [''xray.jpg''], path_join td [''panoramic.jpg''], path_join td [''intraoral.jpg'']}"

definition selected :: "env \<Rightarrow> path \<Rightarrow> (path \<times> string) list" where
  "selected E path = filter (\<lambda>rf. matches (snd rf)) (walk_files (os_walk E path))"

definition downloaded_line :: "path \<Rightarrow> string" where
  "downloaded_line path = ''Dataset downloaded to: '' @ path"

definition download_step :: "env \<Rightarrow> world \<Rightarrow> path outcome" where
  "download_step E w0 =
     kagglehub_dataset_download E ''weiweicui/ctooth-dataset''
       (print ''Downloading CTooth dataset...'' w0)"

section \<open>A sample run\<close>

text \<open>
  A small installation used to exercise the theorems: the script lives in
  \<open>/srv/app/server/scripts\<close>, the collaborator has put the dataset under \<open>/cache/ctooth\<close>,
  and \<open>/srv/app/server/test\<close> does not exist yet.
\<close>

definition sample_walk :: "(path \<times> string list \<times> string list) list" where
  "sample_walk =
     [(''/cache/ctooth'', [''dir''], [''scan.intraoral.png'', ''README.md'', ''scan.panoramic.jpeg'']),
      (''/cache/ctooth/dir'', [''a''], []),
      (''/cache/ctooth/dir/a'', [], [''PANO_Xray_001.JPG'', ''myjpg.png.txt'', ''xray_002.png''])]"

definition sample_env :: env where
  "sample_env =
     \<lparr>script_file = ''/srv/app/server/scripts/download_dataset.py'',
      kagglehub_dataset_download = (\<lambda>name w. Returned ''/cache/ctooth'' w),
      os_walk = (\<lambda>path. if path = ''/cache/ctooth'' then sample_walk else [])\<rparr>"

definition sample_files :: "path \<rightharpoonup> bytes" where
  "sample_files =
     [''/cache/ctooth/scan.intraoral.png'' \<mapsto> ''io-bytes'',
      ''/cache/ctooth/README.md'' \<mapsto> ''readme'',
      ''/cache/ctooth/scan.panoramic.jpeg'' \<mapsto> ''pano-bytes'',
      ''/cache/ctooth/dir/a/PANO_Xray_001.JPG'' \<mapsto> ''xray-1'',
      ''/cache/ctooth/dir/a/myjpg.png.txt'' \<mapsto> ''text'',
      ''/cache/ctooth/dir/a/xray_002.png'' \<mapsto> ''xray-2'']"

definition sample_world :: world where
  "sample_world =
     \<lparr>fs_files = sample_files,
      fs_dirs = {''/'', ''/srv'', ''/srv/app'', ''/srv/app/server'', ''/srv/app/server/scripts'',
                 ''/cache'', ''/cache/ctooth'', ''/cache/ctooth/dir'', ''/cache/ctooth/dir/a''},
      stdout = []\<rparr>"

text \<open>The world the sample run ends in.\<close>

definition sample_final :: world where
  "sample_final =
     \<lparr>fs_files =
        sample_files(''/srv/app/server/test/images/intraoral.jpg'' \<mapsto> ''io-bytes'',
                     ''/srv/app/server/test/images/panoramic.jpg'' \<mapsto> ''pano-bytes'',
                     ''/srv/app/server/test/images/xray.jpg'' \<mapsto> ''xray-2''),
      fs_dirs = fs_dirs sample_world \<union> {''/srv/app/server/test'', ''/srv/app/server/test/images''},
      stdout =
        [''Downloading CTooth dataset...'',
         ''Dataset downloaded to: /cache/ctooth'',
         ''Copied scan.intraoral.png to intraoral.jpg'',
         ''Copied scan.panoramic.jpeg to panoramic.jpg'',
         ''Copied PANO_Xray_001.JPG to xray.jpg'',
         ''Copied xray_002.png to xray.jpg'']\<rparr>"

text \<open>
  The sample installation with the fixture directory in place and a directory named
  \<open>xray.jpg\<close> in it, and the world a run ends in from there.
\<close>

definition shadowed_world :: world where
  "shadowed_world =
     sample_world
       \<lparr>fs_dirs := fs_dirs sample_world \<union>
          {''/srv/app/server/test'', ''/srv/app/server/test/images'',
           ''/srv/app/server/test/images/xray.jpg''}\<rparr>"

definition shadowed_final :: world where
  "shadowed_final =
     \<lparr>fs_files =
        sample_files(''/srv/app/server/test/images/intraoral.jpg'' \<mapsto> ''io-bytes'',
                     ''/srv/app/server/test/images/panoramic.jpg'' \<mapsto> ''pano-bytes'',
                     ''/srv/app/server/test/images/xray.jpg/PANO_Xray_001.JPG'' \<mapsto> ''xray-1'',
                     ''/srv/app/server/test/images/xray.jpg/xray_002.png'' \<mapsto> ''xray-2''),
      fs_dirs = fs_dirs shadowed_world,
      stdout =
        [''Downloading CTooth dataset...'',
         ''Dataset downloaded to: /cache/ctooth'',
         ''Copied scan.intraoral.png to intraoral.jpg'',
         ''Copied scan.panoramic.jpeg to panoramic.jpg'',
         ''Copied PANO_Xray_001.JPG to xray.jpg'',
         ''Copied xray_002.png to xray.jpg'']\<rparr>"

text \<open>The sample world with a line printed earlier.\<close>

definition later_world :: world where
  "later_world = sample_world\<lparr>stdout := [''an earlier line'']\<rparr>"

text \<open>
  Three ways for the sample run to fail: the download raises; a regular file sits where the
  directory \<open>test\<close> should be; the walk lists a file that is no longer there.
\<close>

definition offline_env :: env where
  "offline_env = sample_env\<lparr>kagglehub_dataset_download := (\<lambda>name w. Raised DownloadError w)\<rparr>"

definition blocked_world :: world where
  "blocked_world = sample_world\<lparr>fs_files := sample_files(''/srv/app/server/test'' \<mapsto> ''a file'')\<rparr>"

definition stale_env :: env where
  "stale_env =
     sample_env
       \<lparr>os_walk :=
          (\<lambda>path. [(''/cache/ctooth'', [],
                     [''scan.panoramic.jpeg'', ''gone_xray.png'', ''scan.intraoral.png''])])\<rparr>"

text \<open>
  The sample world once the fixture directory is made, and after the first copy of the stale
  walk.
\<close>

definition sample_made :: world where
  "sample_made =
     \<lparr>fs_files = sample_files,
      fs_dirs = fs_dirs sample_world \<union> {''/srv/app/server/test'', ''/srv/app/server/test/images''},
      stdout = [''Downloading CTooth dataset...'', ''Dataset downloaded to: /cache/ctooth'']\<rparr>"

definition stale_stopped :: world where
  "stale_stopped =
     \<lparr>fs_files = sample_files(''/srv/app/server/test/images/panoramic.jpg'' \<mapsto> ''pano-bytes''),
      fs_dirs = fs_dirs sample_world \<union> {''/srv/app/server/test'', ''/srv/app/server/test/images''},
      stdout = [''Downloading CTooth dataset...'', ''Dataset downloaded to: /cache/ctooth'',
                ''Copied scan.panoramic.jpeg to panoramic.jpg'']\<rparr>"

text \<open>
  A second installation: the dataset holds no file that passes both filters, and the fixture
  directory exists already, with an older fixture in it.
\<close>

definition quiet_env :: env where
  "quiet_env =
     \<lparr>script_file = ''/srv/app/server/scripts/download_dataset.py'',
      kagglehub_dataset_download = (\<lambda>name w. Returned ''/cache/ctooth'' w),
      os_walk = (\<lambda>path. [(''/cache/ctooth'', [], [''README.md'', ''myjpg.png.txt'', ''xray.txt''])])\<rparr>"

definition quiet_world :: world where
  "quiet_world =
     \<lparr>fs_files =
        [''/cache/ctooth/README.md'' \<mapsto> ''readme'',
         ''/cache/ctooth/myjpg.png.txt'' \<mapsto> ''text'',
         ''/cache/ctooth/xray.txt'' \<mapsto> ''notes'',
         ''/srv/app/server/test/images/xray.jpg'' \<mapsto> ''old-xray''],
      fs_dirs = {''/srv/app/server/test'', ''/srv/app/server/test/images'', ''/cache/ctooth''},
      stdout = []\<rparr>"

section \<open>Substrings\<close>

lemma str_in_sublist: "str_in n h = sublist n h"
  by (induction h) (simp_all add: sublist_Cons_right)

lemma str_in_iff: "str_in n h \<longleftrightarrow> (\<exists>ps ss. h = ps @ n @ ss)"
  by (simp add: str_in_sublist sublist_def)

section \<open>The loops copy the matching files in order\<close>

lemma copy_each_append:
  "copy_each td (xs @ ys) w =
     (case copy_each td xs w of
        Raised e w' \<Rightarrow> Raised e w'
      | Returned u w' \<Rightarrow> copy_each td ys w')"
  by (induction xs arbitrary: w) (simp_all split: outcome.splits)

lemma files_loop_step:
  "files_loop td root (file # files) w =
     (if matches file then
        (case copy_step td (root, file) w of
           Raised e w' \<Rightarrow> Raised e w'
         | Returned u w' \<Rightarrow> files_loop td root files w')
      else files_loop td root files w)"
  by (simp add: matches_def has_ext_def has_keyword_def copy_step_def source_of_def
      target_of_def progress_line_def slot_name_def Let_def split: outcome.splits)

lemma files_loop_flat:
  "files_loop td root files w = copy_each td (filter (\<lambda>rf. matches (snd rf)) (map (Pair root) files)) w"
proof (induction files arbitrary: w)
  case Nil
  show ?case by simp
next
  case (Cons f fs)
  show ?case
    unfolding files_loop_step
    by (simp add: Cons.IH split: outcome.splits)
qed

lemma walk_loop_flat:
  "walk_loop td ws w = copy_each td (filter (\<lambda>rf. matches (snd rf)) (walk_files ws)) w"
proof (induction ws arbitrary: w)
  case Nil
  show ?case by (simp add: walk_files_def)
next
  case (Cons t ws)
  obtain root dirs files where t: "t = (root, dirs, files)"
    by (cases t) auto
  have split: "walk_files (t # ws) = map (Pair root) files @ walk_files ws"
    by (simp add: walk_files_def t)
  show ?case
    unfolding split filter_append copy_each_append
    by (simp add: t files_loop_flat Cons.IH split: outcome.splits)
qed

section \<open>Paths\<close>

lemma path_join_one: "path_join a [b] = join2 a b"
  by (simp add: path_join_def)

lemma bare_not_abs: "bare b \<Longrightarrow> \<not> prefix ''/'' b"
  by (cases b) (auto simp: bare_def)

lemma join2_bare:
  "bare b \<Longrightarrow> join2 a b = (if a = [] \<or> last a = CHR ''/'' then a @ b else a @ ''/'' @ b)"
  by (simp add: join2_def bare_not_abs)

lemma last_component_join2:
  assumes "bare b"
  shows "rev (takeWhile (\<lambda>c. c \<noteq> CHR ''/'') (rev (join2 a b))) = b"
proof -
  have all: "\<forall>c \<in> set (rev b). c \<noteq> CHR ''/''"
    using assms by (auto simp: bare_def)
  show ?thesis
  proof (cases "a = [] \<or> last a = CHR ''/''")
    case True
    then have stop: "takeWhile (\<lambda>c. c \<noteq> CHR ''/'') (rev a) = []"
      by (cases a rule: rev_cases) auto
    have "takeWhile (\<lambda>c. c \<noteq> CHR ''/'') (rev b @ rev a) =
        rev b @ takeWhile (\<lambda>c. c \<noteq> CHR ''/'') (rev a)"
      by (rule takeWhile_append2) (use all in blast)
    then have "takeWhile (\<lambda>c. c \<noteq> CHR ''/'') (rev b @ rev a) = rev b"
      using stop by simp
    then show ?thesis
      using True assms by (simp add: join2_bare)
  next
    case False
    have "takeWhile (\<lambda>c. c \<noteq> CHR ''/'') (rev b @ CHR ''/'' # rev a) =
        rev b @ takeWhile (\<lambda>c. c \<noteq> CHR ''/'') (CHR ''/'' # rev a)"
      by (rule takeWhile_append2) (use all in blast)
    then have "takeWhile (\<lambda>c. c \<noteq> CHR ''/'') (rev b @ CHR ''/'' # rev a) = rev b"
      by simp
    then show ?thesis
      using False assms by (simp add: join2_bare)
  qed
qed

lemma join2_bare_inject:
  assumes "bare b" "bare d" "join2 a b = join2 c d"
  shows "b = d"
  using last_component_join2 [OF assms(1), of a] last_component_join2 [OF assms(2), of c] assms(3)
  by simp

lemma slot_name_cases:
  "slot_name n = ''xray.jpg'' \<or> slot_name n = ''panoramic.jpg'' \<or> slot_name n = ''intraoral.jpg''"
  by (simp add: slot_name_def)

lemma slot_name_bare: "bare (slot_name n)"
  using slot_name_cases [of n] by (auto simp: bare_def)

lemma slot_name_fixed:
  "slot_name (lower ''xray.jpg'') = ''xray.jpg''"
  "slot_name (lower ''panoramic.jpg'') = ''panoramic.jpg''"
  "slot_name (lower ''intraoral.jpg'') = ''intraoral.jpg''"
  by (simp_all add: slot_name_def lower_def lower_char_def)

lemma target_in_slots: "target_of td rf \<in> slot_paths td"
  using slot_name_cases [of "lower (snd rf)"] by (auto simp: target_of_def slot_paths_def)

lemma source_in_slots_is_target:
  assumes "bare (snd rf)" "source_of rf \<in> slot_paths td"
  shows "source_of rf = target_of td rf"
proof -
  from assms(2) obtain s where s: "s \<in> {''xray.jpg'', ''panoramic.jpg'', ''intraoral.jpg''}"
      and eq: "join2 (fst rf) (snd rf) = join2 td s"
    by (auto simp: slot_paths_def source_of_def path_join_one)
  have "bare s" using s by (auto simp: bare_def)
  then have "snd rf = s" using join2_bare_inject [OF assms(1) _ eq] by simp
  moreover have "slot_name (lower s) = s" using s slot_name_fixed by auto
  ultimately show ?thesis using eq by (simp add: source_of_def target_of_def path_join_one)
qed

lemma target_of_eq_iff:
  "target_of td rf = path_join td [s] \<longleftrightarrow> slot_name (lower (snd rf)) = s" if "bare s"
  using join2_bare_inject [OF slot_name_bare that, of td "lower (snd rf)" td]
  by (auto simp: target_of_def path_join_one)

section \<open>Effects of the primitives\<close>

lemma print_fields:
  "fs_files (print s w) = fs_files w" "fs_dirs (print s w) = fs_dirs w"
  "stdout (print s w) = stdout w @ [s]"
  by (simp_all add: print_def)

lemma copyfile_Returned:
  assumes "copyfile src dst w = Returned u w'"
  shows "\<exists>b. fs_files w src = Some b \<and> src \<noteq> dst \<and> writable (fs_dirs w) dst
    \<and> w' = w\<lparr>fs_files := (fs_files w)(dst \<mapsto> b)\<rparr>"
  using assms
  by (auto simp: copyfile_def writable_def split: option.splits if_splits)

lemma copyfile_Raised: "copyfile src dst w = Raised e w' \<Longrightarrow> w' = w"
  by (auto simp: copyfile_def split: option.splits if_splits)

lemma copyfile_succeeds:
  "fs_files w src = Some b \<Longrightarrow> src \<noteq> dst \<Longrightarrow> writable (fs_dirs w) dst \<Longrightarrow>
     copyfile src dst w = Returned () (w\<lparr>fs_files := (fs_files w)(dst \<mapsto> b)\<rparr>)"
  by (simp add: copyfile_def writable_def)

lemma copy2_Raised: "copy2 src dst w = Raised e w' \<Longrightarrow> w' = w"
  by (auto simp: copy2_def Let_def dest: copyfile_Raised)

lemma copy2_dest:
  "copy2 (source_of rf) (target_of td rf) w = copyfile (source_of rf) (dest_of td (fs_dirs w) rf) w"
  by (simp add: copy2_def dest_of_def Let_def)

lemma copy_step_Returned:
  assumes "copy_step td rf w = Returned u w'"
  shows "\<exists>b. fs_files w (source_of rf) = Some b
    \<and> source_of rf \<noteq> dest_of td (fs_dirs w) rf
    \<and> writable (fs_dirs w) (dest_of td (fs_dirs w) rf)
    \<and> w' = w\<lparr>fs_files := (fs_files w)(dest_of td (fs_dirs w) rf \<mapsto> b),
               stdout := stdout w @ [progress_line rf]\<rparr>"
proof -
  obtain u1 w1 where c: "copyfile (source_of rf) (dest_of td (fs_dirs w) rf) w = Returned u1 w1"
      and w': "w' = print (progress_line rf) w1"
    using assms unfolding copy_step_def copy2_dest by (auto split: outcome.splits)
  show ?thesis
    using copyfile_Returned [OF c] w' by (auto simp: print_def)
qed

lemma copy_step_dirs: "copy_step td rf w = Returned u w' \<Longrightarrow> fs_dirs w' = fs_dirs w"
  by (drule copy_step_Returned) auto

lemma copy_step_stdout:
  "copy_step td rf w = Returned u w' \<Longrightarrow> stdout w' = stdout w @ [progress_line rf]"
  by (drule copy_step_Returned) auto

lemma copy_step_files:
  "copy_step td rf w = Returned u w' \<Longrightarrow>
     \<exists>b. fs_files w (source_of rf) = Some b
       \<and> fs_files w' = (fs_files w)(dest_of td (fs_dirs w) rf \<mapsto> b)"
  by (drule copy_step_Returned) auto

lemma copy_step_distinct:
  "copy_step td rf w = Returned u w' \<Longrightarrow>
     source_of rf \<noteq> dest_of td (fs_dirs w) rf \<and> writable (fs_dirs w) (dest_of td (fs_dirs w) rf)"
  by (drule copy_step_Returned) auto

lemma copy_step_Raised: "copy_step td rf w = Raised e w' \<Longrightarrow> w' = w"
  by (auto simp: copy_step_def split: outcome.splits dest: copy2_Raised)

lemma copy_step_succeeds:
  "fs_files w (source_of rf) = Some b \<Longrightarrow> source_of rf \<noteq> dest_of td (fs_dirs w) rf \<Longrightarrow>
   writable (fs_dirs w) (dest_of td (fs_dirs w) rf) \<Longrightarrow>
     copy_step td rf w =
       Returned () (w\<lparr>fs_files := (fs_files w)(dest_of td (fs_dirs w) rf \<mapsto> b),
                      stdout := stdout w @ [progress_line rf]\<rparr>)"
  unfolding copy_step_def copy2_dest by (simp add: copyfile_succeeds print_def)

lemma makedirs_Returned:
  assumes "makedirs name True w = Returned u w'"
  shows "fs_files w' = fs_files w" "stdout w' = stdout w" "name \<in> fs_dirs w'"
    "fs_dirs w \<subseteq> fs_dirs w'" "fs_dirs w' \<subseteq> fs_dirs w \<union> set (name # ancestors name)"
    "name \<in> fs_dirs w \<or> set (ancestors name) \<subseteq> fs_dirs w'"
  using assms by (auto simp: makedirs_def split: if_splits)

lemma makedirs_Raised: "makedirs name ok w = Raised e w' \<Longrightarrow> w' = w"
  by (auto simp: makedirs_def split: if_splits)

lemma makedirs_exists: "name \<in> fs_dirs w \<Longrightarrow> makedirs name True w = Returned () w"
  by (simp add: makedirs_def)

section \<open>Effects of a sequence of copies\<close>

lemma copy_each_dirs: "fs_dirs (world_of (copy_each td sel w)) = fs_dirs w"
proof (induction sel arbitrary: w)
  case Nil
  show ?case by simp
next
  case (Cons rf sel)
  show ?case
  proof (cases "copy_step td rf w")
    case (Returned u w1)
    have "fs_dirs w1 = fs_dirs w"
      by (rule copy_step_dirs [OF Returned])
    then show ?thesis
      using Returned Cons.IH [of w1] by simp
  next
    case (Raised e w1)
    then show ?thesis using copy_step_Raised [OF Raised] by simp
  qed
qed

lemma copy_each_Returned_dirs: "copy_each td sel w = Returned u w' \<Longrightarrow> fs_dirs w' = fs_dirs w"
  using copy_each_dirs [of td sel w] by simp

lemma copy_each_frame:
  "\<forall>rf \<in> set sel. dest_of td (fs_dirs w) rf \<noteq> p \<Longrightarrow>
     fs_files (world_of (copy_each td sel w)) p = fs_files w p"
proof (induction sel arbitrary: w)
  case Nil
  show ?case by simp
next
  case (Cons rf sel)
  show ?case
  proof (cases "copy_step td rf w")
    case (Returned u w1)
    obtain b where "fs_files w1 = (fs_files w)(dest_of td (fs_dirs w) rf \<mapsto> b)"
      using copy_step_files [OF Returned] by blast
    moreover have "dest_of td (fs_dirs w) rf \<noteq> p"
      using Cons.prems by simp
    ultimately have same: "fs_files w1 p = fs_files w p"
      by simp
    have "fs_dirs w1 = fs_dirs w"
      by (rule copy_step_dirs [OF Returned])
    then have "\<forall>rf \<in> set sel. dest_of td (fs_dirs w1) rf \<noteq> p"
      using Cons.prems by simp
    then have "fs_files (world_of (copy_each td sel w1)) p = fs_files w1 p"
      by (rule Cons.IH)
    then show ?thesis
      using Returned same by simp
  next
    case (Raised e w1)
    then show ?thesis using copy_step_Raised [OF Raised] by simp
  qed
qed

lemma copy_each_keeps:
  "fs_files w p \<noteq> None \<Longrightarrow> fs_files (world_of (copy_each td sel w)) p \<noteq> None"
proof (induction sel arbitrary: w)
  case Nil
  then show ?case by simp
next
  case (Cons rf sel)
  show ?case
  proof (cases "copy_step td rf w")
    case (Returned u w1)
    then have "fs_files w1 p \<noteq> None"
      using copy_step_files [OF Returned] Cons.prems by auto
    then show ?thesis
      using Returned Cons.IH [of w1] by simp
  next
    case (Raised e w1)
    then show ?thesis using copy_step_Raised [OF Raised] Cons.prems by simp
  qed
qed

lemma copy_each_stdout:
  "copy_each td sel w = Returned u w' \<Longrightarrow> stdout w' = stdout w @ map progress_line sel"
proof (induction sel arbitrary: w)
  case Nil
  then show ?case by simp
next
  case (Cons rf sel)
  then obtain u1 w1 where s: "copy_step td rf w = Returned u1 w1" and r: "copy_each td sel w1 = Returned u w'"
    by (auto split: outcome.splits)
  show ?case
    using copy_step_stdout [OF s] Cons.IH [OF r] by simp
qed

lemma copy_each_distinct:
  "copy_each td sel w = Returned u w' \<Longrightarrow> rf \<in> set sel \<Longrightarrow>
     source_of rf \<noteq> dest_of td (fs_dirs w) rf \<and> writable (fs_dirs w) (dest_of td (fs_dirs w) rf)"
proof (induction sel arbitrary: w)
  case Nil
  then show ?case by simp
next
  case (Cons x sel)
  then obtain u1 w1 where s: "copy_step td x w = Returned u1 w1" and r: "copy_each td sel w1 = Returned u w'"
    by (auto split: outcome.splits)
  have dirs: "fs_dirs w1 = fs_dirs w"
    by (rule copy_step_dirs [OF s])
  show ?case
  proof (cases "rf = x")
    case True
    then show ?thesis using copy_step_distinct [OF s] by simp
  next
    case False
    then have "rf \<in> set sel" using Cons.prems(2) by simp
    then show ?thesis using Cons.IH [OF r] dirs by simp
  qed
qed

lemma copy_each_snoc:
  "copy_each td (xs @ [x]) w =
     (case copy_each td xs w of
        Raised e w' \<Rightarrow> Raised e w'
      | Returned u w' \<Rightarrow> copy_step td x w')"
  by (simp add: copy_each_append split: outcome.splits)

text \<open>
  After a sequence of copies that all returned, a path holds what the last file copied onto it
  held at the start, provided no source is itself a place some copy lands in.
\<close>

lemma copy_each_final:
  assumes "copy_each td sel w = Returned u w'"
    and "\<forall>rf \<in> set sel. \<forall>rf' \<in> set sel. source_of rf \<noteq> dest_of td (fs_dirs w) rf'"
  shows "fs_files w' p =
    (if filter (\<lambda>rf. dest_of td (fs_dirs w) rf = p) sel = [] then fs_files w p
     else fs_files w (source_of (last (filter (\<lambda>rf. dest_of td (fs_dirs w) rf = p) sel))))"
  using assms
proof (induction sel arbitrary: u w' rule: rev_induct)
  case Nil
  then show ?case by simp
next
  case (snoc x sel)
  from snoc.prems(1) obtain u1 w1 where pre: "copy_each td sel w = Returned u1 w1"
      and step: "copy_step td x w1 = Returned u w'"
    by (auto simp: copy_each_snoc split: outcome.splits)
  have dirs: "fs_dirs w1 = fs_dirs w"
    by (rule copy_each_Returned_dirs [OF pre])
  have clear: "\<forall>rf \<in> set sel. \<forall>rf' \<in> set sel. source_of rf \<noteq> dest_of td (fs_dirs w) rf'"
    and clear_x: "\<forall>rf \<in> set sel. dest_of td (fs_dirs w) rf \<noteq> source_of x"
    using snoc.prems(2) by auto
  have ih: "fs_files w1 p =
    (if filter (\<lambda>rf. dest_of td (fs_dirs w) rf = p) sel = [] then fs_files w p
     else fs_files w (source_of (last (filter (\<lambda>rf. dest_of td (fs_dirs w) rf = p) sel))))"
    by (rule snoc.IH [OF pre clear])
  have "fs_files (world_of (copy_each td sel w)) (source_of x) = fs_files w (source_of x)"
    by (rule copy_each_frame [OF clear_x])
  then have same: "fs_files w1 (source_of x) = fs_files w (source_of x)"
    using pre by simp
  obtain b where b: "fs_files w1 (source_of x) = Some b"
      and upd: "fs_files w' = (fs_files w1)(dest_of td (fs_dirs w) x \<mapsto> b)"
    using copy_step_files [OF step] dirs by auto
  show ?case
  proof (cases "dest_of td (fs_dirs w) x = p")
    case True
    have "fs_files w' p = fs_files w (source_of x)"
      using upd b same True by simp
    moreover have "filter (\<lambda>rf. dest_of td (fs_dirs w) rf = p) (sel @ [x]) =
        filter (\<lambda>rf. dest_of td (fs_dirs w) rf = p) sel @ [x]"
      using True by simp
    ultimately show ?thesis
      by simp
  next
    case False
    have "fs_files w' p = fs_files w1 p"
      using upd False by simp
    moreover have "filter (\<lambda>rf. dest_of td (fs_dirs w) rf = p) (sel @ [x]) =
        filter (\<lambda>rf. dest_of td (fs_dirs w) rf = p) sel"
      using False by simp
    ultimately show ?thesis
      using ih by simp
  qed
qed

lemma copy_each_sources:
  assumes "copy_each td sel w = Returned u w'"
    and "\<forall>rf \<in> set sel. \<forall>rf' \<in> set sel. source_of rf \<noteq> dest_of td (fs_dirs w) rf'"
    and "rf \<in> set sel"
  shows "fs_files w (source_of rf) \<noteq> None"
  using assms
proof (induction sel arbitrary: w)
  case Nil
  then show ?case by simp
next
  case (Cons x sel)
  from Cons.prems(1) obtain u1 w1 where s: "copy_step td x w = Returned u1 w1"
      and r: "copy_each td sel w1 = Returned u w'"
    by (auto split: outcome.splits)
  have dirs: "fs_dirs w1 = fs_dirs w"
    by (rule copy_step_dirs [OF s])
  obtain b where b: "fs_files w (source_of x) = Some b"
      and upd: "fs_files w1 = (fs_files w)(dest_of td (fs_dirs w) x \<mapsto> b)"
    using copy_step_files [OF s] by blast
  show ?case
  proof (cases "rf = x")
    case True
    then show ?thesis using b by simp
  next
    case False
    then have in_sel: "rf \<in> set sel" using Cons.prems(3) by simp
    have "\<forall>rf \<in> set sel. \<forall>rf' \<in> set sel. source_of rf \<noteq> dest_of td (fs_dirs w1) rf'"
      using Cons.prems(2) dirs by simp
    then have "fs_files w1 (source_of rf) \<noteq> None"
      using Cons.IH [OF r _ in_sel] by blast
    moreover have "source_of rf \<noteq> dest_of td (fs_dirs w) x"
      using Cons.prems(2) in_sel by simp
    ultimately show ?thesis
      using upd by simp
  qed
qed

lemma copy_each_succeeds:
  assumes "\<forall>rf \<in> set sel. fs_files w (source_of rf) \<noteq> None
      \<and> writable (fs_dirs w) (dest_of td (fs_dirs w) rf)"
    and "\<forall>rf \<in> set sel. \<forall>rf' \<in> set sel. source_of rf \<noteq> dest_of td (fs_dirs w) rf'"
  shows "\<exists>w'. copy_each td sel w = Returned () w'"
  using assms
proof (induction sel arbitrary: w)
  case Nil
  show ?case by simp
next
  case (Cons x sel)
  obtain b where b: "fs_files w (source_of x) = Some b"
    using Cons.prems(1) by auto
  have ne: "source_of x \<noteq> dest_of td (fs_dirs w) x"
    and wr: "writable (fs_dirs w) (dest_of td (fs_dirs w) x)"
    using Cons.prems by simp_all
  define w1 where "w1 = w\<lparr>fs_files := (fs_files w)(dest_of td (fs_dirs w) x \<mapsto> b),
                      stdout := stdout w @ [progress_line x]\<rparr>"
  have step: "copy_step td x w = Returned () w1"
    unfolding w1_def by (rule copy_step_succeeds [OF b ne wr])
  have dirs: "fs_dirs w1 = fs_dirs w"
    by (simp add: w1_def)
  have "\<forall>rf \<in> set sel. fs_files w1 (source_of rf) \<noteq> None
      \<and> writable (fs_dirs w1) (dest_of td (fs_dirs w1) rf)"
  proof
    fix rf assume rf: "rf \<in> set sel"
    then have a: "fs_files w (source_of rf) \<noteq> None"
      and n: "source_of rf \<noteq> dest_of td (fs_dirs w) x"
      and k: "writable (fs_dirs w) (dest_of td (fs_dirs w) rf)"
      using Cons.prems by simp_all
    have "fs_files w1 (source_of rf) \<noteq> None"
      using a n by (simp add: w1_def)
    then show "fs_files w1 (source_of rf) \<noteq> None
        \<and> writable (fs_dirs w1) (dest_of td (fs_dirs w1) rf)"
      using k dirs by simp
  qed
  moreover have "\<forall>rf \<in> set sel. \<forall>rf' \<in> set sel. source_of rf \<noteq> dest_of td (fs_dirs w1) rf'"
    using Cons.prems(2) dirs by simp
  ultimately obtain w' where "copy_each td sel w1 = Returned () w'"
    using Cons.IH by blast
  then show ?case
    using step by simp
qed

section \<open>Where a copy lands\<close>

lemma basename_source: "bare (snd rf) \<Longrightarrow> basename (source_of rf) = snd rf"
  by (simp add: basename_def source_of_def path_join_one last_component_join2)

lemma join2_bare_last:
  assumes "bare b"
  shows "join2 a b \<noteq> []" "last (join2 a b) \<noteq> CHR ''/''"
proof -
  have b: "b \<noteq> []" "CHR ''/'' \<notin> set b"
    using assms by (simp_all add: bare_def)
  then have "last b \<noteq> CHR ''/''"
    by (metis last_in_set)
  then show "join2 a b \<noteq> []" "last (join2 a b) \<noteq> CHR ''/''"
    using b(1) assms by (simp_all add: join2_bare)
qed

lemma join2_bare_length:
  assumes "bare b"
  shows "length a + length b \<le> length (join2 a b)" "length (join2 a b) \<le> length a + 1 + length b"
  using assms by (simp_all add: join2_bare)

lemma join2_bare_longer: "bare b \<Longrightarrow> length a < length (join2 a b)"
  using join2_bare_length(1) [of b a] by (cases b) (simp_all add: bare_def)

text \<open>A path inside a slot is not a slot.\<close>

lemma nested_not_slot:
  assumes "bare s'" "bare f" "bare s"
  shows "join2 (join2 td s') f \<noteq> join2 td s"
proof
  assume eq: "join2 (join2 td s') f = join2 td s"
  have fs: "f = s"
    by (rule join2_bare_inject [OF assms(2,3) eq])
  have "join2 (join2 td s') f = join2 td s' @ ''/'' @ f"
    using join2_bare_last [OF assms(1), of td] assms(2) by (simp add: join2_bare)
  then have "length (join2 (join2 td s') f) = length (join2 td s') + 1 + length f"
    by simp
  moreover have "length td < length (join2 td s')"
    by (rule join2_bare_longer [OF assms(1)])
  moreover have "length (join2 td s) \<le> length td + 1 + length s"
    by (rule join2_bare_length(2) [OF assms(3)])
  ultimately show False
    using eq fs by simp
qed

lemma dest_of_eq_slot:
  assumes "bare (snd rf)" "bare s" "path_join td [s] \<notin> ds"
  shows "dest_of td ds rf = path_join td [s] \<longleftrightarrow> slot_name (lower (snd rf)) = s"
proof (cases "target_of td rf \<in> ds")
  case True
  have "dest_of td ds rf = join2 (join2 td (slot_name (lower (snd rf)))) (snd rf)"
    using True assms(1) by (simp add: dest_of_def basename_source target_of_def path_join_one)
  then have "dest_of td ds rf \<noteq> path_join td [s]"
    using nested_not_slot [OF slot_name_bare assms(1,2)] by (simp add: path_join_one)
  moreover have "slot_name (lower (snd rf)) \<noteq> s"
    using True assms(3) by (auto simp: target_of_def)
  ultimately show ?thesis
    by simp
next
  case False
  then show ?thesis
    using target_of_eq_iff [OF assms(2)] by (simp add: dest_of_def)
qed

text \<open>A file that sits where some copy lands sits where its own copy lands.\<close>

lemma source_is_dest:
  assumes "bare (snd rf)" "bare (snd rf')" "source_of rf = dest_of td ds rf'"
  shows "source_of rf = dest_of td ds rf"
proof (cases "target_of td rf' \<in> ds")
  case True
  have "dest_of td ds rf' = join2 (target_of td rf') (snd rf')"
    using True basename_source [OF assms(2)] by (simp add: dest_of_def path_join_one)
  then have eq: "join2 (fst rf) (snd rf) = join2 (target_of td rf') (snd rf')"
    using assms(3) by (simp add: source_of_def path_join_one)
  have same: "snd rf = snd rf'"
    by (rule join2_bare_inject [OF assms(1,2) eq])
  then have "target_of td rf = target_of td rf'"
    by (simp add: target_of_def)
  then have "dest_of td ds rf = join2 (target_of td rf') (snd rf)"
    using True basename_source [OF assms(1)] by (simp add: dest_of_def path_join_one)
  then show ?thesis
    using eq same by (simp add: source_of_def path_join_one)
next
  case False
  then have "source_of rf = target_of td rf'"
    using assms(3) by (simp add: dest_of_def)
  then have "source_of rf \<in> slot_paths td"
    using target_in_slots [of td rf'] by simp
  then have own: "source_of rf = target_of td rf"
    by (rule source_in_slots_is_target [OF assms(1)])
  then have "target_of td rf \<notin> ds"
    using False \<open>source_of rf = target_of td rf'\<close> by simp
  then show ?thesis
    using own by (simp add: dest_of_def)
qed

text \<open>
  A run whose copies all returned never read a place a copy landed in, when the names are
  bare: the copy of such a file onto itself would have raised.
\<close>

lemma returned_sources_clear:
  assumes "copy_each td sel w = Returned u w'" "list_all (\<lambda>rf. bare (snd rf)) sel"
  shows "\<forall>rf \<in> set sel. \<forall>rf' \<in> set sel. source_of rf \<noteq> dest_of td (fs_dirs w) rf'"
proof (intro ballI notI)
  fix rf rf'
  assume rf: "rf \<in> set sel" and rf': "rf' \<in> set sel"
    and eq: "source_of rf = dest_of td (fs_dirs w) rf'"
  have "bare (snd rf)" "bare (snd rf')"
    using assms(2) rf rf' by (simp_all add: list_all_iff)
  then have "source_of rf = dest_of td (fs_dirs w) rf"
    using eq by (rule source_is_dest)
  then show False
    using copy_each_distinct [OF assms(1) rf] by simp
qed

text \<open>The directories above a path are shorter than the path; a slot is longer than its directory.\<close>

lemma prefix_rev_dropWhile: "prefix (rev (dropWhile P (rev p))) p"
proof -
  have "rev p = takeWhile P (rev p) @ dropWhile P (rev p)"
    by simp
  then have "p = rev (dropWhile P (rev p)) @ rev (takeWhile P (rev p))"
    by (metis rev_append rev_rev_ident)
  then show ?thesis
    by (metis prefixI)
qed

lemma dirname_prefix: "prefix (dirname p) p"
proof -
  have head: "prefix (rev (dropWhile (\<lambda>c. c \<noteq> CHR ''/'') (rev p))) p"
    by (rule prefix_rev_dropWhile)
  have "prefix (rstrip_slash (rev (dropWhile (\<lambda>c. c \<noteq> CHR ''/'') (rev p))))
      (rev (dropWhile (\<lambda>c. c \<noteq> CHR ''/'') (rev p)))"
    unfolding rstrip_slash_def by (rule prefix_rev_dropWhile)
  then have "prefix (rstrip_slash (rev (dropWhile (\<lambda>c. c \<noteq> CHR ''/'') (rev p)))) p"
    using head by (rule prefix_order.trans)
  then show ?thesis
    using head by (simp add: dirname_def Let_def)
qed

lemma ancestors_shorter: "a \<in> set (ancestors p) \<Longrightarrow> length a < length p"
proof (induction p rule: ancestors.induct)
  case (1 p)
  show ?case
  proof (cases "dirname p = [] \<or> dirname p = p")
    case True
    then have "ancestors p = []"
      by (subst ancestors.simps) simp
    then show ?thesis
      using "1.prems" by simp
  next
    case False
    obtain zs where zs: "p = dirname p @ zs"
      using dirname_prefix [of p] by (auto simp: prefix_def)
    have "zs \<noteq> []"
      using False zs by (metis append_Nil2)
    moreover have "length p = length (dirname p) + length zs"
      using zs by (metis length_append)
    ultimately have shorter: "length (dirname p) < length p"
      by simp
    have "ancestors p = dirname p # ancestors (dirname p)"
      using False by (subst ancestors.simps) simp
    then have "a = dirname p \<or> a \<in> set (ancestors (dirname p))"
      using "1.prems" by simp
    then show ?thesis
      using shorter "1.IH" [OF False] by auto
  qed
qed

lemma slot_not_above: "bare s \<Longrightarrow> path_join td [s] \<notin> set (td # ancestors td)"
  using join2_bare_longer [of s td] ancestors_shorter [of "join2 td s" td]
  by (auto simp: path_join_one)

lemma target_not_above: "target_of td rf \<notin> set (td # ancestors td)"
  unfolding target_of_def by (rule slot_not_above [OF slot_name_bare])

section \<open>A run, step by step\<close>

lemma run_download_raised:
  "download_step E w0 = Raised e w \<Longrightarrow> download_dataset E w0 = Raised e w"
  by (simp add: download_dataset_def download_step_def)

lemma run_after_download:
  assumes "download_step E w0 = Returned path w1"
  shows "download_dataset E w0 =
    (case makedirs (fixture_dir E) True (print (downloaded_line path) w1) of
       Raised e w \<Rightarrow> Raised e w
     | Returned u w3 \<Rightarrow> copy_each (fixture_dir E) (selected E path) w3)"
  using assms
  by (simp add: download_dataset_def download_step_def fixture_dir_def downloaded_line_def
      selected_def walk_loop_flat Let_def cong: outcome.case_cong)

lemma run_Returned:
  assumes "download_dataset E w0 = Returned u w'" "download_step E w0 = Returned path w1"
  obtains w3 where "makedirs (fixture_dir E) True (print (downloaded_line path) w1) = Returned () w3"
    and "copy_each (fixture_dir E) (selected E path) w3 = Returned u w'"
  using assms(1) unfolding run_after_download [OF assms(2)]
  by (auto split: outcome.splits)

lemma selected_bare:
  "bare_names (os_walk E path) \<Longrightarrow> list_all (\<lambda>rf. bare (snd rf)) (selected E path)"
  by (simp add: bare_names_def selected_def list_all_iff)

text \<open>
  Once the fixture directory is made, a slot is a directory exactly when it was one when the
  download returned.
\<close>

lemma made_dirs_slots:
  assumes "makedirs td True (print l w1) = Returned u w3"
  shows "target_of td rf \<in> fs_dirs w3 \<longleftrightarrow> target_of td rf \<in> fs_dirs w1"
    and "bare s \<Longrightarrow> path_join td [s] \<in> fs_dirs w3 \<longleftrightarrow> path_join td [s] \<in> fs_dirs w1"
    and "dest_of td (fs_dirs w3) rf = dest_of td (fs_dirs w1) rf"
proof -
  have lower: "fs_dirs w1 \<subseteq> fs_dirs w3"
    using makedirs_Returned(4) [OF assms] by (simp add: print_fields)
  have upper: "fs_dirs w3 \<subseteq> fs_dirs w1 \<union> set (td # ancestors td)"
    using makedirs_Returned(5) [OF assms] by (simp add: print_fields)
  show t: "target_of td rf \<in> fs_dirs w3 \<longleftrightarrow> target_of td rf \<in> fs_dirs w1"
    using lower upper target_not_above [of td rf] by blast
  show "bare s \<Longrightarrow> path_join td [s] \<in> fs_dirs w3 \<longleftrightarrow> path_join td [s] \<in> fs_dirs w1"
    using lower upper slot_not_above [of s td] by blast
  show "dest_of td (fs_dirs w3) rf = dest_of td (fs_dirs w1) rf"
    using t by (simp add: dest_of_def)
qed

section \<open>Which files are copied, and where to\<close>

text \<open>
  C1. The two loops copy exactly the walked files whose lowercased name contains one of
  \<open>.jpg\<close>, \<open>.jpeg\<close>, \<open>.png\<close> and one of \<open>xray\<close>, \<open>panoramic\<close>, \<open>intraoral\<close>, in walk order
  and up to the first copy that raises. The extension test is a substring test:
  \<open>myjpg.png.txt\<close> passes it although it does not end in \<open>.png\<close> (it is not copied, for want
  of a keyword), and \<open>xray.png.txt\<close> is copied.
\<close>

theorem copied_iff_filters:
  "walk_loop td ws w = copy_each td (filter (\<lambda>rf. matches (snd rf)) (walk_files ws)) w
   \<and> (matches file \<longleftrightarrow>
        (sublist ''.jpg'' (lower file) \<or> sublist ''.jpeg'' (lower file) \<or> sublist ''.png'' (lower file))
        \<and> (sublist ''xray'' (lower file) \<or> sublist ''panoramic'' (lower file)
             \<or> sublist ''intraoral'' (lower file)))
   \<and> has_ext (lower ''myjpg.png.txt'') \<and> \<not> suffix ''.png'' (lower ''myjpg.png.txt'')
   \<and> \<not> matches ''myjpg.png.txt'' \<and> matches ''xray.png.txt''"
proof -
  have "\<not> suffix ''.png'' (lower ''myjpg.png.txt'')"
    by (simp add: lower_def lower_char_def suffix_def)
  moreover have "has_ext (lower ''myjpg.png.txt'')" "\<not> matches ''myjpg.png.txt''" "matches ''xray.png.txt''"
    by (simp_all add: matches_def has_ext_def has_keyword_def lower_def lower_char_def)
  moreover have "matches file \<longleftrightarrow>
        (sublist ''.jpg'' (lower file) \<or> sublist ''.jpeg'' (lower file) \<or> sublist ''.png'' (lower file))
        \<and> (sublist ''xray'' (lower file) \<or> sublist ''panoramic'' (lower file)
             \<or> sublist ''intraoral'' (lower file))"
    by (simp add: matches_def has_ext_def has_keyword_def str_in_sublist)
  ultimately show ?thesis
    using walk_loop_flat [of td ws w] by blast
qed

text \<open>
  C2. A file that passes both filters is copied to a slot chosen by keyword priority on its
  lowercased name: \<open>xray.jpg\<close> when it contains \<open>xray\<close>, else \<open>panoramic.jpg\<close> when it
  contains \<open>panoramic\<close>, else \<open>intraoral.jpg\<close>, and then it does contain \<open>intraoral\<close>.
  A name with both \<open>xray\<close> and \<open>panoramic\<close> never goes to \<open>panoramic.jpg\<close>.
\<close>

theorem slot_priority:
  assumes "matches file"
  shows "files_loop td root (file # files) w =
      (case copy2 (path_join root [file]) (path_join td [slot_name (lower file)]) w of
         Raised e w' \<Rightarrow> Raised e w'
       | Returned u w' \<Rightarrow>
           files_loop td root files
             (print (''Copied '' @ file @ '' to '' @ slot_name (lower file)) w'))
    \<and> (str_in ''xray'' (lower file) \<longrightarrow> slot_name (lower file) = ''xray.jpg'')
    \<and> (\<not> str_in ''xray'' (lower file) \<and> str_in ''panoramic'' (lower file) \<longrightarrow>
          slot_name (lower file) = ''panoramic.jpg'')
    \<and> (\<not> str_in ''xray'' (lower file) \<and> \<not> str_in ''panoramic'' (lower file) \<longrightarrow>
          slot_name (lower file) = ''intraoral.jpg'' \<and> str_in ''intraoral'' (lower file))
    \<and> (str_in ''xray'' (lower file) \<and> str_in ''panoramic'' (lower file) \<longrightarrow>
          slot_name (lower file) \<noteq> ''panoramic.jpg'')"
proof -
  have step: "files_loop td root (file # files) w =
      (case copy2 (path_join root [file]) (path_join td [slot_name (lower file)]) w of
         Raised e w' \<Rightarrow> Raised e w'
       | Returned u w' \<Rightarrow>
           files_loop td root files
             (print (''Copied '' @ file @ '' to '' @ slot_name (lower file)) w'))"
    using assms unfolding files_loop_step
    by (simp add: copy_step_def source_of_def target_of_def progress_line_def split: outcome.splits)
  have kw: "has_keyword (lower file)"
    using assms by (simp add: matches_def)
  have "\<not> str_in ''xray'' (lower file) \<and> \<not> str_in ''panoramic'' (lower file) \<longrightarrow>
          str_in ''intraoral'' (lower file)"
    using kw unfolding has_keyword_def by blast
  then show ?thesis
    using step by (simp add: slot_name_def)
qed

theorem slot_priority_witness:
  "matches ''scan_panoramic_XRAY_7.jpeg''
   \<and> str_in ''xray'' (lower ''scan_panoramic_XRAY_7.jpeg'')
   \<and> str_in ''panoramic'' (lower ''scan_panoramic_XRAY_7.jpeg'')
   \<and> slot_name (lower ''scan_panoramic_XRAY_7.jpeg'') = ''xray.jpg''
   \<and> slot_name (lower ''scan_panoramic_XRAY_7.jpeg'') \<noteq> ''panoramic.jpg''"
proof -
  have m: "matches ''scan_panoramic_XRAY_7.jpeg''"
    by (simp add: matches_def has_ext_def has_keyword_def lower_def lower_char_def)
  have x: "str_in ''xray'' (lower ''scan_panoramic_XRAY_7.jpeg'')"
    and p: "str_in ''panoramic'' (lower ''scan_panoramic_XRAY_7.jpeg'')"
    by (simp_all add: lower_def lower_char_def)
  show ?thesis
    using slot_priority [OF m, of "''/srv/app/server/test/images''" "''/cache/ctooth''" "[]" sample_world]
      m x p
    by blast
qed

section \<open>The sample runs, evaluated\<close>

lemma sample_download:
  "download_step sample_env sample_world =
     Returned ''/cache/ctooth'' (print ''Downloading CTooth dataset...'' sample_world)"
  by (simp add: download_step_def sample_env_def)

lemma sample_fixture_dir: "fixture_dir sample_env = ''/srv/app/server/test/images''"
  by (simp add: fixture_dir_def sample_env_def path_join_def join2_def dirname_def rstrip_slash_def)

lemma sample_lower:
  "lower ''scan.intraoral.png'' = ''scan.intraoral.png''"
  "lower ''README.md'' = ''readme.md''"
  "lower ''scan.panoramic.jpeg'' = ''scan.panoramic.jpeg''"
  "lower ''PANO_Xray_001.JPG'' = ''pano_xray_001.jpg''"
  "lower ''myjpg.png.txt'' = ''myjpg.png.txt''"
  "lower ''xray_002.png'' = ''xray_002.png''"
  by (simp_all add: lower_def lower_char_def)

lemma sample_selected:
  "selected sample_env ''/cache/ctooth'' =
     [(''/cache/ctooth'', ''scan.intraoral.png''), (''/cache/ctooth'', ''scan.panoramic.jpeg''),
      (''/cache/ctooth/dir/a'', ''PANO_Xray_001.JPG''), (''/cache/ctooth/dir/a'', ''xray_002.png'')]"
  by (simp add: selected_def sample_env_def sample_walk_def walk_files_def matches_def has_ext_def
      has_keyword_def sample_lower)

lemma sample_bare: "bare_names (os_walk sample_env ''/cache/ctooth'')"
  by (simp add: bare_names_def sample_env_def sample_walk_def walk_files_def bare_def)

lemma sample_makedirs:
  "makedirs ''/srv/app/server/test/images'' True
     (print ''Dataset downloaded to: /cache/ctooth''
        (print ''Downloading CTooth dataset...'' sample_world)) =
   Returned () sample_made"
  by (simp add: makedirs_def ancestors.simps dirname_def rstrip_slash_def print_def
      sample_made_def sample_world_def sample_files_def insert_commute)

lemma sample_targets:
  "target_of ''/srv/app/server/test/images'' (r, ''scan.intraoral.png'') =
     ''/srv/app/server/test/images/intraoral.jpg''"
  "target_of ''/srv/app/server/test/images'' (r, ''scan.panoramic.jpeg'') =
     ''/srv/app/server/test/images/panoramic.jpg''"
  "target_of ''/srv/app/server/test/images'' (r, ''PANO_Xray_001.JPG'') =
     ''/srv/app/server/test/images/xray.jpg''"
  "target_of ''/srv/app/server/test/images'' (r, ''xray_002.png'') =
     ''/srv/app/server/test/images/xray.jpg''"
  "target_of ''/srv/app/server/test/images'' (r, ''gone_xray.png'') =
     ''/srv/app/server/test/images/xray.jpg''"
  by (simp_all add: target_of_def slot_name_def sample_lower lower_def lower_char_def
      path_join_def join2_def)

lemma sample_sources:
  "source_of (''/cache/ctooth'', ''scan.intraoral.png'') = ''/cache/ctooth/scan.intraoral.png''"
  "source_of (''/cache/ctooth'', ''scan.panoramic.jpeg'') = ''/cache/ctooth/scan.panoramic.jpeg''"
  "source_of (''/cache/ctooth/dir/a'', ''PANO_Xray_001.JPG'') = ''/cache/ctooth/dir/a/PANO_Xray_001.JPG''"
  "source_of (''/cache/ctooth/dir/a'', ''xray_002.png'') = ''/cache/ctooth/dir/a/xray_002.png''"
  "source_of (''/cache/ctooth'', ''gone_xray.png'') = ''/cache/ctooth/gone_xray.png''"
  by (simp_all add: source_of_def path_join_def join2_def)

lemma sample_lines:
  "progress_line (r, ''scan.intraoral.png'') = ''Copied scan.intraoral.png to intraoral.jpg''"
  "progress_line (r, ''scan.panoramic.jpeg'') = ''Copied scan.panoramic.jpeg to panoramic.jpg''"
  "progress_line (r, ''PANO_Xray_001.JPG'') = ''Copied PANO_Xray_001.JPG to xray.jpg''"
  "progress_line (r, ''xray_002.png'') = ''Copied xray_002.png to xray.jpg''"
  by (simp_all add: progress_line_def slot_name_def sample_lower)

lemma sample_parents:
  "dirname ''/srv/app/server/test/images/intraoral.jpg'' = ''/srv/app/server/test/images''"
  "dirname ''/srv/app/server/test/images/panoramic.jpg'' = ''/srv/app/server/test/images''"
  "dirname ''/srv/app/server/test/images/xray.jpg'' = ''/srv/app/server/test/images''"
  "dirname ''/srv/app/server/test/images/xray.jpg/PANO_Xray_001.JPG'' =
     ''/srv/app/server/test/images/xray.jpg''"
  "dirname ''/srv/app/server/test/images/xray.jpg/xray_002.png'' =
     ''/srv/app/server/test/images/xray.jpg''"
  by (simp_all add: dirname_def rstrip_slash_def)

lemma sample_copies:
  "copy_each ''/srv/app/server/test/images'' (selected sample_env ''/cache/ctooth'') sample_made =
     Returned () sample_final"
  unfolding sample_selected
  by (simp add: copy_step_def copy2_def copyfile_def parent_exists_def sample_targets
      sample_sources sample_lines sample_parents print_def sample_made_def sample_final_def
      sample_world_def sample_files_def)

lemma sample_run: "download_dataset sample_env sample_world = Returned () sample_final"
  unfolding run_after_download [OF sample_download] sample_fixture_dir
  using sample_makedirs sample_copies by (simp add: downloaded_line_def)

lemma shadowed_download:
  "download_step sample_env shadowed_world =
     Returned ''/cache/ctooth'' (print ''Downloading CTooth dataset...'' shadowed_world)"
  by (simp add: download_step_def sample_env_def)

lemma shadowed_makedirs:
  "makedirs ''/srv/app/server/test/images'' True
     (print ''Dataset downloaded to: /cache/ctooth''
        (print ''Downloading CTooth dataset...'' shadowed_world)) =
   Returned ()
     (print ''Dataset downloaded to: /cache/ctooth''
        (print ''Downloading CTooth dataset...'' shadowed_world))"
  by (rule makedirs_exists) (simp add: print_def shadowed_world_def)

lemma sample_names:
  "basename ''/cache/ctooth/dir/a/PANO_Xray_001.JPG'' = ''PANO_Xray_001.JPG''"
  "basename ''/cache/ctooth/dir/a/xray_002.png'' = ''xray_002.png''"
  by (simp_all add: basename_def)

lemma shadowed_copies:
  "copy_each ''/srv/app/server/test/images'' (selected sample_env ''/cache/ctooth'')
     (print ''Dataset downloaded to: /cache/ctooth''
        (print ''Downloading CTooth dataset...'' shadowed_world)) =
     Returned () shadowed_final"
  unfolding sample_selected
  by (simp add: copy_step_def copy2_def copyfile_def parent_exists_def sample_targets
      sample_sources sample_lines sample_parents sample_names path_join_def join2_def print_def
      shadowed_world_def shadowed_final_def sample_world_def sample_files_def)

lemma shadowed_run: "download_dataset sample_env shadowed_world = Returned () shadowed_final"
  unfolding run_after_download [OF shadowed_download] sample_fixture_dir
  using shadowed_makedirs shadowed_copies by (simp add: downloaded_line_def)

lemma sample_xray_hits:
  "filter (\<lambda>rf. slot_name (lower (snd rf)) = ''xray.jpg'') (selected sample_env ''/cache/ctooth'') =
     [(''/cache/ctooth/dir/a'', ''PANO_Xray_001.JPG''), (''/cache/ctooth/dir/a'', ''xray_002.png'')]"
  unfolding sample_selected by (simp add: slot_name_def sample_lower)

section \<open>Last match wins\<close>

text \<open>
  C3, as the claim states it, fails where a slot is a directory. In the sample installation
  with a directory \<open>test/images/xray.jpg\<close> the run returns; two walked files pass the filters
  and are classified into \<open>xray.jpg\<close>, the last of them \<open>xray_002.png\<close>; yet nothing is
  written at the slot path: each of the two is copied into the directory under its own name,
  and neither overwrites the other.
\<close>

theorem directory_slot_keeps_every_match:
  "download_dataset sample_env shadowed_world = Returned () shadowed_final
   \<and> filter (\<lambda>rf. slot_name (lower (snd rf)) = ''xray.jpg'') (selected sample_env ''/cache/ctooth'') =
       [(''/cache/ctooth/dir/a'', ''PANO_Xray_001.JPG''), (''/cache/ctooth/dir/a'', ''xray_002.png'')]
   \<and> fs_files shadowed_world (source_of (''/cache/ctooth/dir/a'', ''xray_002.png'')) = Some ''xray-2''
   \<and> path_join (fixture_dir sample_env) [''xray.jpg''] = ''/srv/app/server/test/images/xray.jpg''
   \<and> ''/srv/app/server/test/images/xray.jpg'' \<in> fs_dirs shadowed_world
   \<and> fs_files shadowed_final ''/srv/app/server/test/images/xray.jpg'' = None
   \<and> fs_files shadowed_final ''/srv/app/server/test/images/xray.jpg/PANO_Xray_001.JPG'' = Some ''xray-1''
   \<and> fs_files shadowed_final ''/srv/app/server/test/images/xray.jpg/xray_002.png'' = Some ''xray-2''"
proof -
  have src: "fs_files shadowed_world (source_of (''/cache/ctooth/dir/a'', ''xray_002.png'')) = Some ''xray-2''"
    by (simp add: sample_sources shadowed_world_def sample_world_def sample_files_def)
  have slot: "path_join (fixture_dir sample_env) [''xray.jpg''] = ''/srv/app/server/test/images/xray.jpg''"
    by (simp add: sample_fixture_dir path_join_def join2_def)
  have dir: "''/srv/app/server/test/images/xray.jpg'' \<in> fs_dirs shadowed_world"
    by (simp add: shadowed_world_def)
  have after: "fs_files shadowed_final ''/srv/app/server/test/images/xray.jpg'' = None"
    "fs_files shadowed_final ''/srv/app/server/test/images/xray.jpg/PANO_Xray_001.JPG'' = Some ''xray-1''"
    "fs_files shadowed_final ''/srv/app/server/test/images/xray.jpg/xray_002.png'' = Some ''xray-2''"
    by (simp_all add: shadowed_final_def sample_files_def)
  show ?thesis
    using shadowed_run sample_xray_hits src slot dir after by simp
qed

text \<open>
  C3, amended. After a run that returned, each slot that is not a directory and received a
  copy holds the bytes of the last file, in walk order, that passed the filters and was
  classified into that slot: every copy into such a slot overwrites what the slot held. The
  bytes are those the file had when the download returned, and so is the test on the slot.
\<close>

theorem last_match_wins:
  assumes run: "download_dataset E w0 = Returned u w'"
    and dl: "download_step E w0 = Returned path w1"
    and names: "bare_names (os_walk E path)"
    and hits: "hits = filter (\<lambda>rf. slot_name (lower (snd rf)) = s) (selected E path)"
    and some: "hits \<noteq> []"
    and slot: "path_join (fixture_dir E) [s] \<notin> fs_dirs w1"
  shows "fs_files w' (path_join (fixture_dir E) [s]) = fs_files w1 (source_of (last hits))
    \<and> fs_files w1 (source_of (last hits)) \<noteq> None"
proof -
  obtain w3 where mk: "makedirs (fixture_dir E) True (print (downloaded_line path) w1) = Returned () w3"
      and copies: "copy_each (fixture_dir E) (selected E path) w3 = Returned u w'"
    using run dl by (rule run_Returned)
  have files3: "fs_files w3 = fs_files w1"
    using makedirs_Returned(1) [OF mk] by (simp add: print_def)
  have bare_sel: "list_all (\<lambda>rf. bare (snd rf)) (selected E path)"
    by (rule selected_bare [OF names])
  have clear: "\<forall>rf \<in> set (selected E path). \<forall>rf' \<in> set (selected E path).
      source_of rf \<noteq> dest_of (fixture_dir E) (fs_dirs w3) rf'"
    by (rule returned_sources_clear [OF copies bare_sel])
  have last_in: "last hits \<in> set hits"
    using some by simp
  then have last_sel: "last hits \<in> set (selected E path)"
    and last_s: "slot_name (lower (snd (last hits))) = s"
    unfolding hits by simp_all
  have bare_s: "bare s"
    using slot_name_bare [of "lower (snd (last hits))"] last_s by simp
  have slot3: "path_join (fixture_dir E) [s] \<notin> fs_dirs w3"
    using made_dirs_slots(2) [OF mk bare_s] slot by simp
  have "\<And>rf. rf \<in> set (selected E path) \<Longrightarrow>
      (dest_of (fixture_dir E) (fs_dirs w3) rf = path_join (fixture_dir E) [s])
        = (slot_name (lower (snd rf)) = s)"
    using bare_sel dest_of_eq_slot [OF _ bare_s slot3] by (simp add: list_all_iff)
  then have same_filter:
    "filter (\<lambda>rf. dest_of (fixture_dir E) (fs_dirs w3) rf = path_join (fixture_dir E) [s])
       (selected E path) = hits"
    unfolding hits by (rule filter_cong [OF refl])
  have "fs_files w' (path_join (fixture_dir E) [s]) = fs_files w3 (source_of (last hits))"
    using copy_each_final [OF copies clear, of "path_join (fixture_dir E) [s]"] some
    unfolding same_filter by simp
  moreover have "fs_files w3 (source_of (last hits)) \<noteq> None"
    by (rule copy_each_sources [OF copies clear last_sel])
  ultimately show ?thesis
    using files3 by simp
qed

theorem last_match_wins_witness:
  "fs_files sample_final ''/srv/app/server/test/images/xray.jpg'' =
     fs_files sample_world ''/cache/ctooth/dir/a/xray_002.png''
   \<and> fs_files sample_world ''/cache/ctooth/dir/a/xray_002.png'' = Some ''xray-2''"
proof -
  have hits: "[(''/cache/ctooth/dir/a'', ''PANO_Xray_001.JPG''), (''/cache/ctooth/dir/a'', ''xray_002.png'')] =
      filter (\<lambda>rf. slot_name (lower (snd rf)) = ''xray.jpg'') (selected sample_env ''/cache/ctooth'')"
    unfolding sample_selected by (simp add: slot_name_def sample_lower)
  have slot: "path_join (fixture_dir sample_env) [''xray.jpg'']
      \<notin> fs_dirs (print ''Downloading CTooth dataset...'' sample_world)"
    by (simp add: sample_fixture_dir path_join_def join2_def print_def sample_world_def)
  have "fs_files sample_final (path_join (fixture_dir sample_env) [''xray.jpg'']) =
      fs_files (print ''Downloading CTooth dataset...'' sample_world)
        (source_of (last [(''/cache/ctooth/dir/a'', ''PANO_Xray_001.JPG''), (''/cache/ctooth/dir/a'', ''xray_002.png'')]))"
    using last_match_wins [OF sample_run sample_download sample_bare hits _ slot] by simp
  then have "fs_files sample_final ''/srv/app/server/test/images/xray.jpg'' =
     fs_files sample_world ''/cache/ctooth/dir/a/xray_002.png''"
    by (simp add: sample_fixture_dir source_of_def path_join_def join2_def print_def)
  moreover have "fs_files sample_world ''/cache/ctooth/dir/a/xray_002.png'' = Some ''xray-2''"
    by (simp add: sample_world_def sample_files_def)
  ultimately show ?thesis by simp
qed

section \<open>Case-insensitive matching\<close>

lemma lower_char_idem: "lower_char (lower_char c) = lower_char c"
  by (simp add: lower_char_def)

lemma lower_idem: "lower (lower s) = lower s"
  by (simp add: lower_def lower_char_idem)

text \<open>
  C4. The extension test, the keyword test and the choice of slot all look at the lowercased
  name only, so they do not depend on letter case, while the copy reads the file under its
  original name. \<open>PANO_Xray_001.JPG\<close> passes and goes to \<open>xray.jpg\<close>; in the sample world
  with the fixture directory made, the copy succeeds although no file exists under the
  lowercased name.
\<close>

theorem case_insensitive_matching:
  "files_loop td root (file # files) w =
     (if has_ext (lower file) \<and> has_keyword (lower file) then
        (case copy2 (path_join root [file]) (path_join td [slot_name (lower file)]) w of
           Raised e w' \<Rightarrow> Raised e w'
         | Returned u w' \<Rightarrow>
             files_loop td root files
               (print (''Copied '' @ file @ '' to '' @ slot_name (lower file)) w'))
      else files_loop td root files w)
   \<and> matches (lower file) = matches file
   \<and> slot_name (lower (lower file)) = slot_name (lower file)
   \<and> lower ''PANO_Xray_001.JPG'' = ''pano_xray_001.jpg''
   \<and> matches ''PANO_Xray_001.JPG''
   \<and> slot_name (lower ''PANO_Xray_001.JPG'') = ''xray.jpg''
   \<and> fs_files sample_made ''/cache/ctooth/dir/a/pano_xray_001.jpg'' = None
   \<and> files_loop ''/srv/app/server/test/images'' ''/cache/ctooth/dir/a'' [''PANO_Xray_001.JPG'']
         sample_made =
       Returned ()
         (sample_made
            \<lparr>fs_files := (fs_files sample_made)(''/srv/app/server/test/images/xray.jpg'' \<mapsto> ''xray-1''),
             stdout := stdout sample_made @ [''Copied PANO_Xray_001.JPG to xray.jpg'']\<rparr>)"
proof -
  have step: "files_loop td root (file # files) w =
     (if has_ext (lower file) \<and> has_keyword (lower file) then
        (case copy2 (path_join root [file]) (path_join td [slot_name (lower file)]) w of
           Raised e w' \<Rightarrow> Raised e w'
         | Returned u w' \<Rightarrow>
             files_loop td root files
               (print (''Copied '' @ file @ '' to '' @ slot_name (lower file)) w'))
      else files_loop td root files w)"
    unfolding files_loop_step
    by (simp add: matches_def copy_step_def source_of_def target_of_def progress_line_def
        split: outcome.splits)
  have low: "lower ''PANO_Xray_001.JPG'' = ''pano_xray_001.jpg''"
    by (simp add: lower_def lower_char_def)
  have m: "matches ''PANO_Xray_001.JPG''"
    by (simp add: matches_def has_ext_def has_keyword_def low)
  have sl: "slot_name (lower ''PANO_Xray_001.JPG'') = ''xray.jpg''"
    by (simp add: slot_name_def low)
  have none: "fs_files sample_made ''/cache/ctooth/dir/a/pano_xray_001.jpg'' = None"
    by (simp add: sample_made_def sample_files_def)
  have src: "fs_files sample_made (source_of (''/cache/ctooth/dir/a'', ''PANO_Xray_001.JPG'')) = Some ''xray-1''"
    by (simp add: sample_sources sample_made_def sample_files_def)
  have dest: "dest_of ''/srv/app/server/test/images'' (fs_dirs sample_made)
      (''/cache/ctooth/dir/a'', ''PANO_Xray_001.JPG'') = ''/srv/app/server/test/images/xray.jpg''"
    by (simp add: dest_of_def sample_targets sample_made_def sample_world_def)
  have ne: "source_of (''/cache/ctooth/dir/a'', ''PANO_Xray_001.JPG'') \<noteq>
      dest_of ''/srv/app/server/test/images'' (fs_dirs sample_made)
        (''/cache/ctooth/dir/a'', ''PANO_Xray_001.JPG'')"
    unfolding dest by (simp add: sample_sources)
  have wr: "writable (fs_dirs sample_made)
      (dest_of ''/srv/app/server/test/images'' (fs_dirs sample_made)
        (''/cache/ctooth/dir/a'', ''PANO_Xray_001.JPG''))"
    unfolding dest
    by (simp add: writable_def parent_exists_def sample_parents sample_made_def sample_world_def)
  have run: "files_loop ''/srv/app/server/test/images'' ''/cache/ctooth/dir/a'' [''PANO_Xray_001.JPG'']
         sample_made =
       Returned ()
         (sample_made
            \<lparr>fs_files := (fs_files sample_made)(''/srv/app/server/test/images/xray.jpg'' \<mapsto> ''xray-1''),
             stdout := stdout sample_made @ [''Copied PANO_Xray_001.JPG to xray.jpg'']\<rparr>)"
    unfolding files_loop_step
    using copy_step_succeeds [OF src ne wr] m
    by (simp add: dest sample_lines)
  show ?thesis
    using step low m sl none run by (simp add: matches_def lower_idem)
qed

section \<open>No match\<close>

lemma makedirs_files: "fs_files (world_of (makedirs name ok w)) = fs_files w"
  by (simp add: makedirs_def)

lemma makedirs_stdout: "stdout (world_of (makedirs name ok w)) = stdout w"
  by (simp add: makedirs_def)

text \<open>
  C5. When no walked file passes both filters, the loops do nothing and raise nothing: the run
  is the download followed by the creation of the fixture directory. No file is written, so
  fixtures already present stay as they are, and no copy line is printed; where the fixture
  directory exists the run returns.
\<close>

theorem zero_match:
  assumes dl: "download_step E w0 = Returned path w1"
    and zero: "list_all (\<lambda>rf. \<not> matches (snd rf)) (walk_files (os_walk E path))"
  shows "download_dataset E w0 = makedirs (fixture_dir E) True (print (downloaded_line path) w1)
    \<and> fs_files (world_of (download_dataset E w0)) = fs_files w1
    \<and> stdout (world_of (download_dataset E w0)) = stdout w1 @ [downloaded_line path]
    \<and> (fixture_dir E \<in> fs_dirs w1 \<longrightarrow>
         download_dataset E w0 = Returned () (print (downloaded_line path) w1))"
proof -
  have "selected E path = []"
    using zero by (simp add: selected_def list_all_iff)
  then have run: "download_dataset E w0 = makedirs (fixture_dir E) True (print (downloaded_line path) w1)"
    unfolding run_after_download [OF dl]
    by (cases "makedirs (fixture_dir E) True (print (downloaded_line path) w1)") simp_all
  have "fixture_dir E \<in> fs_dirs w1 \<longrightarrow>
      makedirs (fixture_dir E) True (print (downloaded_line path) w1) = Returned () (print (downloaded_line path) w1)"
    by (simp add: makedirs_exists print_def)
  then show ?thesis
    unfolding run by (simp add: makedirs_files makedirs_stdout print_def)
qed

theorem zero_match_witness:
  "download_dataset quiet_env quiet_world =
     Returned () (quiet_world\<lparr>stdout := [''Downloading CTooth dataset...'',
                                          ''Dataset downloaded to: /cache/ctooth'']\<rparr>)
   \<and> fs_files (world_of (download_dataset quiet_env quiet_world))
         ''/srv/app/server/test/images/xray.jpg'' = Some ''old-xray''"
proof -
  have dl: "download_step quiet_env quiet_world =
      Returned ''/cache/ctooth'' (print ''Downloading CTooth dataset...'' quiet_world)"
    by (simp add: download_step_def quiet_env_def)
  have low: "lower ''README.md'' = ''readme.md''" "lower ''myjpg.png.txt'' = ''myjpg.png.txt''"
      "lower ''xray.txt'' = ''xray.txt''"
    by (simp_all add: lower_def lower_char_def)
  have zero: "list_all (\<lambda>rf. \<not> matches (snd rf)) (walk_files (os_walk quiet_env ''/cache/ctooth''))"
    by (simp add: quiet_env_def walk_files_def matches_def has_ext_def has_keyword_def low)
  have td: "fixture_dir quiet_env = ''/srv/app/server/test/images''"
    by (simp add: fixture_dir_def quiet_env_def path_join_def join2_def dirname_def rstrip_slash_def)
  have there: "fixture_dir quiet_env \<in> fs_dirs (print ''Downloading CTooth dataset...'' quiet_world)"
    unfolding td by (simp add: quiet_world_def print_def)
  have old: "fs_files quiet_world ''/srv/app/server/test/images/xray.jpg'' = Some ''old-xray''"
    by (simp add: quiet_world_def)
  have "download_dataset quiet_env quiet_world =
      Returned () (print (downloaded_line ''/cache/ctooth'')
        (print ''Downloading CTooth dataset...'' quiet_world))"
    using zero_match [OF dl zero] there by blast
  then have run: "download_dataset quiet_env quiet_world =
     Returned () (quiet_world\<lparr>stdout := [''Downloading CTooth dataset...'',
                                          ''Dataset downloaded to: /cache/ctooth'']\<rparr>)"
    by (simp add: print_def downloaded_line_def quiet_world_def)
  show ?thesis
    unfolding run using old by simp
qed

section \<open>The fixture directory\<close>

lemma dirname_snoc:
  assumes "bare f" "p \<noteq> []" "last p \<noteq> CHR ''/''"
  shows "dirname (p @ ''/'' @ f) = p"
proof -
  have all: "\<And>c. c \<in> set (rev f) \<Longrightarrow> c \<noteq> CHR ''/''"
    using assms(1) by (auto simp: bare_def)
  have "dropWhile (\<lambda>c. c \<noteq> CHR ''/'') (rev f @ CHR ''/'' # rev p) =
      dropWhile (\<lambda>c. c \<noteq> CHR ''/'') (CHR ''/'' # rev p)"
    by (rule dropWhile_append2) (use all in blast)
  then have head: "rev (dropWhile (\<lambda>c. c \<noteq> CHR ''/'') (rev (p @ ''/'' @ f))) = p @ ''/''"
    by simp
  have "last p \<in> set p"
    using assms(2) by simp
  then have "p @ ''/'' \<noteq> replicate (length (p @ ''/'')) CHR ''/''"
    using assms(3) by (metis in_set_replicate set_append UnI1)
  moreover have "rstrip_slash (p @ ''/'') = p"
    using assms(2,3) by (cases p rule: rev_cases) (simp_all add: rstrip_slash_def)
  ultimately show ?thesis
    unfolding dirname_def head by (simp add: Let_def)
qed

lemma fixture_dir_shape:
  assumes "bare d" "bare f" "base \<noteq> []" "last base \<noteq> CHR ''/''"
    and "script_file E = base @ ''/'' @ d @ ''/'' @ f"
  shows "fixture_dir E = base @ ''/test/images''"
    and "ancestors (fixture_dir E) = (base @ ''/test'') # base # ancestors base"
proof -
  have "d \<noteq> []" "CHR ''/'' \<notin> set d"
    using assms(1) by (simp_all add: bare_def)
  then have "d \<noteq> []" "last d \<noteq> CHR ''/''"
    by (simp, metis last_in_set)
  then have d: "base @ ''/'' @ d \<noteq> []" "last (base @ ''/'' @ d) \<noteq> CHR ''/''"
    by simp_all
  have "dirname (script_file E) = base @ ''/'' @ d"
    using dirname_snoc [OF assms(2) d] by (simp add: assms(5))
  then have up: "dirname (dirname (script_file E)) = base"
    using dirname_snoc [OF assms(1,3,4)] by simp
  show td: "fixture_dir E = base @ ''/test/images''"
    using assms(3,4) by (simp add: fixture_dir_def up path_join_def join2_def)
  have t: "bare ''test''" "bare ''images''"
    by (simp_all add: bare_def)
  have d1: "dirname (base @ ''/test/images'') = base @ ''/test''"
    using dirname_snoc [OF t(2), of "base @ ''/test''"] by simp
  have d2: "dirname (base @ ''/test'') = base"
    using dirname_snoc [OF t(1) assms(3,4)] by simp
  have "ancestors (base @ ''/test/images'') = (base @ ''/test'') # ancestors (base @ ''/test'')"
    by (subst ancestors.simps) (simp add: d1)
  moreover have "ancestors (base @ ''/test'') = base # ancestors base"
    by (subst ancestors.simps) (simp add: d2 assms(3))
  ultimately show "ancestors (fixture_dir E) = (base @ ''/test'') # base # ancestors base"
    unfolding td by simp
qed

text \<open>
  C7. After the download the run first makes the fixture directory and only then walks: a
  failed creation ends the run in the world the download left, one line printed, no copy
  made. The directory is \<open>test/images\<close> under the parent of the script's directory. A
  successful creation leaves it and, where it was missing, every directory above it in place,
  touches no file, and can be repeated without effect; where the directory exists already the
  call returns and changes nothing.
\<close>

theorem fixture_dir_created:
  assumes dl: "download_step E w0 = Returned path w1"
  shows "download_dataset E w0 =
      (case makedirs (fixture_dir E) True (print (downloaded_line path) w1) of
         Raised e w \<Rightarrow> Raised e (print (downloaded_line path) w1)
       | Returned u w3 \<Rightarrow> walk_loop (fixture_dir E) (os_walk E path) w3)
    \<and> (makedirs (fixture_dir E) True w = Returned u w' \<longrightarrow>
         fixture_dir E \<in> fs_dirs w' \<and> fs_dirs w \<subseteq> fs_dirs w' \<and> fs_files w' = fs_files w
         \<and> (fixture_dir E \<in> fs_dirs w \<or> set (ancestors (fixture_dir E)) \<subseteq> fs_dirs w')
         \<and> makedirs (fixture_dir E) True w' = Returned () w')
    \<and> (fixture_dir E \<in> fs_dirs w \<longrightarrow> makedirs (fixture_dir E) True w = Returned () w)
    \<and> (bare d \<and> bare f \<and> base \<noteq> [] \<and> last base \<noteq> CHR ''/''
         \<and> script_file E = base @ ''/'' @ d @ ''/'' @ f \<longrightarrow>
         fixture_dir E = base @ ''/test/images''
         \<and> ancestors (fixture_dir E) = (base @ ''/test'') # base # ancestors base)"
proof -
  have order: "download_dataset E w0 =
      (case makedirs (fixture_dir E) True (print (downloaded_line path) w1) of
         Raised e w \<Rightarrow> Raised e (print (downloaded_line path) w1)
       | Returned u w3 \<Rightarrow> walk_loop (fixture_dir E) (os_walk E path) w3)"
  proof (cases "makedirs (fixture_dir E) True (print (downloaded_line path) w1)")
    case (Returned u3 w3)
    then show ?thesis
      unfolding run_after_download [OF dl] by (simp add: walk_loop_flat selected_def)
  next
    case (Raised e3 w3)
    then show ?thesis
      unfolding run_after_download [OF dl] using makedirs_Raised [OF Raised] by simp
  qed
  have made: "makedirs (fixture_dir E) True w = Returned u w' \<longrightarrow>
         fixture_dir E \<in> fs_dirs w' \<and> fs_dirs w \<subseteq> fs_dirs w' \<and> fs_files w' = fs_files w
         \<and> (fixture_dir E \<in> fs_dirs w \<or> set (ancestors (fixture_dir E)) \<subseteq> fs_dirs w')
         \<and> makedirs (fixture_dir E) True w' = Returned () w'"
  proof
    assume mk: "makedirs (fixture_dir E) True w = Returned u w'"
    show "fixture_dir E \<in> fs_dirs w' \<and> fs_dirs w \<subseteq> fs_dirs w' \<and> fs_files w' = fs_files w
         \<and> (fixture_dir E \<in> fs_dirs w \<or> set (ancestors (fixture_dir E)) \<subseteq> fs_dirs w')
         \<and> makedirs (fixture_dir E) True w' = Returned () w'"
      using makedirs_Returned [OF mk] makedirs_exists [of "fixture_dir E" w'] by blast
  qed
  have shape: "bare d \<and> bare f \<and> base \<noteq> [] \<and> last base \<noteq> CHR ''/''
         \<and> script_file E = base @ ''/'' @ d @ ''/'' @ f \<longrightarrow>
         fixture_dir E = base @ ''/test/images''
         \<and> ancestors (fixture_dir E) = (base @ ''/test'') # base # ancestors base"
    using fixture_dir_shape [of d f base E] by blast
  show ?thesis
    using order made shape makedirs_exists [of "fixture_dir E" w] by blast
qed

theorem fixture_dir_created_witness:
  "fixture_dir sample_env = ''/srv/app/server/test/images''
   \<and> ancestors (fixture_dir sample_env) =
       ''/srv/app/server/test'' # ''/srv/app/server'' # ancestors ''/srv/app/server''
   \<and> ''/srv/app/server/test'' \<notin> fs_dirs sample_world
   \<and> ''/srv/app/server/test/images'' \<in> fs_dirs sample_made
   \<and> ''/srv/app/server/test'' \<in> fs_dirs sample_made
   \<and> fs_files sample_made = fs_files sample_world
   \<and> makedirs (fixture_dir sample_env) True sample_made = Returned () sample_made
   \<and> makedirs (fixture_dir sample_env) True sample_final = Returned () sample_final"
proof -
  have script: "bare ''scripts'' \<and> bare ''download_dataset.py'' \<and> ''/srv/app/server'' \<noteq> []
      \<and> last ''/srv/app/server'' \<noteq> CHR ''/''
      \<and> script_file sample_env = ''/srv/app/server'' @ ''/'' @ ''scripts'' @ ''/'' @ ''download_dataset.py''"
    by (simp add: bare_def sample_env_def)
  have shape: "fixture_dir sample_env = ''/srv/app/server'' @ ''/test/images''
      \<and> ancestors (fixture_dir sample_env) =
          (''/srv/app/server'' @ ''/test'') # ''/srv/app/server'' # ancestors ''/srv/app/server''"
    using fixture_dir_created [OF sample_download, where d = "''scripts''"
        and f = "''download_dataset.py''" and base = "''/srv/app/server''"] script
    by blast
  then have td: "fixture_dir sample_env = ''/srv/app/server/test/images''"
    by simp
  have anc: "ancestors (fixture_dir sample_env) =
       ''/srv/app/server/test'' # ''/srv/app/server'' # ancestors ''/srv/app/server''"
    using shape [THEN conjunct2] by (simp only: append.simps)
  have mk: "makedirs (fixture_dir sample_env) True
      (print (downloaded_line ''/cache/ctooth'') (print ''Downloading CTooth dataset...'' sample_world)) =
      Returned () sample_made"
    unfolding td using sample_makedirs by (simp add: downloaded_line_def)
  have made: "fixture_dir sample_env \<in> fs_dirs sample_made"
    "makedirs (fixture_dir sample_env) True sample_made = Returned () sample_made"
    using fixture_dir_created [OF sample_download, where w' = sample_made and u = "()"
        and w = "print (downloaded_line ''/cache/ctooth'') (print ''Downloading CTooth dataset...'' sample_world)"]
      mk
    by blast+
  have there: "fixture_dir sample_env \<in> fs_dirs sample_final"
    unfolding td by (simp add: sample_final_def)
  have again: "makedirs (fixture_dir sample_env) True sample_final = Returned () sample_final"
    using fixture_dir_created [OF sample_download, where w = sample_final] there by blast
  have before: "''/srv/app/server/test'' \<notin> fs_dirs sample_world"
    by (simp add: sample_world_def)
  have after: "''/srv/app/server/test'' \<in> fs_dirs sample_made"
    by (simp add: sample_made_def)
  have files: "fs_files sample_made = fs_files sample_world"
    by (simp add: sample_made_def sample_world_def)
  show ?thesis
    using td anc before after files made again by simp
qed


section \<open>Errors end the run and undo nothing\<close>

lemma run_keeps_files:
  assumes "download_step E w0 = Returned path w1" "fs_files w1 p \<noteq> None"
  shows "fs_files (world_of (download_dataset E w0)) p \<noteq> None"
proof (cases "makedirs (fixture_dir E) True (print (downloaded_line path) w1)")
  case (Returned u3 w3)
  have "fs_files w3 p \<noteq> None"
    using makedirs_Returned(1) [OF Returned] assms(2) by (simp add: print_fields)
  then have "fs_files (world_of (copy_each (fixture_dir E) (selected E path) w3)) p \<noteq> None"
    by (rule copy_each_keeps)
  then show ?thesis
    unfolding run_after_download [OF assms(1)] using Returned by simp
next
  case (Raised e3 w3)
  then show ?thesis
    unfolding run_after_download [OF assms(1)]
    using makedirs_Raised [OF Raised] assms(2) by (simp add: print_fields)
qed

text \<open>
  C8. Nothing is caught. If the download raises, the run raises the same error in the world
  the download left. If creating the fixture directory raises, the run raises that error and
  no copy is made. If a copy raises, the run raises that error at once, in the world that
  holds every copy completed before it. No file that exists after the download is ever
  removed, whatever the outcome.
\<close>

theorem errors_propagate:
  "(download_step E w0 = Raised e w \<longrightarrow> download_dataset E w0 = Raised e w)
   \<and> (download_step E w0 = Returned path w1
        \<and> makedirs (fixture_dir E) True (print (downloaded_line path) w1) = Raised e w \<longrightarrow>
        download_dataset E w0 = Raised e (print (downloaded_line path) w1))
   \<and> (download_step E w0 = Returned path w1
        \<and> makedirs (fixture_dir E) True (print (downloaded_line path) w1) = Returned u w3
        \<and> selected E path = pre @ rf # rest
        \<and> copy_each (fixture_dir E) pre w3 = Returned u' w4
        \<and> copy2 (source_of rf) (target_of (fixture_dir E) rf) w4 = Raised e w \<longrightarrow>
        download_dataset E w0 = Raised e w4)
   \<and> (download_step E w0 = Returned path w1 \<and> fs_files w1 p \<noteq> None \<longrightarrow>
        fs_files (world_of (download_dataset E w0)) p \<noteq> None)"
proof -
  have a: "download_step E w0 = Raised e w \<longrightarrow> download_dataset E w0 = Raised e w"
    using run_download_raised by blast
  have b: "download_step E w0 = Returned path w1
        \<and> makedirs (fixture_dir E) True (print (downloaded_line path) w1) = Raised e w \<longrightarrow>
        download_dataset E w0 = Raised e (print (downloaded_line path) w1)"
  proof
    assume h: "download_step E w0 = Returned path w1
        \<and> makedirs (fixture_dir E) True (print (downloaded_line path) w1) = Raised e w"
    then have "w = print (downloaded_line path) w1"
      using makedirs_Raised by blast
    then show "download_dataset E w0 = Raised e (print (downloaded_line path) w1)"
      using h by (simp add: run_after_download)
  qed
  have c: "download_step E w0 = Returned path w1
        \<and> makedirs (fixture_dir E) True (print (downloaded_line path) w1) = Returned u w3
        \<and> selected E path = pre @ rf # rest
        \<and> copy_each (fixture_dir E) pre w3 = Returned u' w4
        \<and> copy2 (source_of rf) (target_of (fixture_dir E) rf) w4 = Raised e w \<longrightarrow>
        download_dataset E w0 = Raised e w4"
  proof
    assume h: "download_step E w0 = Returned path w1
        \<and> makedirs (fixture_dir E) True (print (downloaded_line path) w1) = Returned u w3
        \<and> selected E path = pre @ rf # rest
        \<and> copy_each (fixture_dir E) pre w3 = Returned u' w4
        \<and> copy2 (source_of rf) (target_of (fixture_dir E) rf) w4 = Raised e w"
    then have "w = w4"
      using copy2_Raised by blast
    then have "copy_step (fixture_dir E) rf w4 = Raised e w4"
      using h by (simp add: copy_step_def)
    then have "copy_each (fixture_dir E) (pre @ rf # rest) w3 = Raised e w4"
      using h by (simp add: copy_each_append)
    then show "download_dataset E w0 = Raised e w4"
      using h by (simp add: run_after_download)
  qed
  have d: "download_step E w0 = Returned path w1 \<and> fs_files w1 p \<noteq> None \<longrightarrow>
        fs_files (world_of (download_dataset E w0)) p \<noteq> None"
    using run_keeps_files by blast
  show ?thesis
    using a b c d by blast
qed

lemma stale_selected:
  "selected stale_env ''/cache/ctooth'' =
     [(''/cache/ctooth'', ''scan.panoramic.jpeg'')]
     @ (''/cache/ctooth'', ''gone_xray.png'') # [(''/cache/ctooth'', ''scan.intraoral.png'')]"
proof -
  have low: "lower ''gone_xray.png'' = ''gone_xray.png''"
    by (simp add: lower_def lower_char_def)
  show ?thesis
    by (simp add: selected_def stale_env_def sample_env_def walk_files_def matches_def has_ext_def
        has_keyword_def sample_lower low)
qed

lemma stale_first_copy:
  "copy_each ''/srv/app/server/test/images'' [(''/cache/ctooth'', ''scan.panoramic.jpeg'')] sample_made =
     Returned () stale_stopped"
  by (simp add: copy_step_def copy2_def copyfile_def parent_exists_def sample_targets
      sample_sources sample_lines sample_parents print_def sample_made_def stale_stopped_def
      sample_world_def sample_files_def)

lemma stale_second_copy:
  "copy2 (source_of (''/cache/ctooth'', ''gone_xray.png''))
     (target_of ''/srv/app/server/test/images'' (''/cache/ctooth'', ''gone_xray.png'')) stale_stopped =
   Raised FileNotFoundError stale_stopped"
  by (simp add: copy2_def copyfile_def sample_targets sample_sources stale_stopped_def
      sample_world_def sample_files_def)

lemma blocked_makedirs:
  "makedirs ''/srv/app/server/test/images'' True
     (print ''Dataset downloaded to: /cache/ctooth''
        (print ''Downloading CTooth dataset...'' blocked_world)) =
   Raised NotADirectoryError
     (print ''Dataset downloaded to: /cache/ctooth''
        (print ''Downloading CTooth dataset...'' blocked_world))"
  by (simp add: makedirs_def ancestors.simps dirname_def rstrip_slash_def print_def
      blocked_world_def sample_world_def sample_files_def)

theorem errors_propagate_witness:
  "download_dataset offline_env sample_world =
     Raised DownloadError (print ''Downloading CTooth dataset...'' sample_world)
   \<and> download_dataset sample_env blocked_world =
     Raised NotADirectoryError
       (print ''Dataset downloaded to: /cache/ctooth''
          (print ''Downloading CTooth dataset...'' blocked_world))
   \<and> download_dataset stale_env sample_world = Raised FileNotFoundError stale_stopped
   \<and> fs_files stale_stopped ''/srv/app/server/test/images/panoramic.jpg'' = Some ''pano-bytes''
   \<and> fs_files stale_stopped ''/srv/app/server/test/images/intraoral.jpg'' = None
   \<and> fs_files (world_of (download_dataset stale_env sample_world)) ''/cache/ctooth/README.md'' \<noteq> None"
proof -
  have off: "download_step offline_env sample_world =
      Raised DownloadError (print ''Downloading CTooth dataset...'' sample_world)"
    by (simp add: download_step_def offline_env_def)
  have a: "download_dataset offline_env sample_world =
      Raised DownloadError (print ''Downloading CTooth dataset...'' sample_world)"
    using errors_propagate [of offline_env sample_world DownloadError
        "print ''Downloading CTooth dataset...'' sample_world"] off
    by blast
  have dl_b: "download_step sample_env blocked_world =
      Returned ''/cache/ctooth'' (print ''Downloading CTooth dataset...'' blocked_world)"
    by (simp add: download_step_def sample_env_def)
  have mk_b: "makedirs (fixture_dir sample_env) True
      (print (downloaded_line ''/cache/ctooth'') (print ''Downloading CTooth dataset...'' blocked_world)) =
      Raised NotADirectoryError
        (print (downloaded_line ''/cache/ctooth'') (print ''Downloading CTooth dataset...'' blocked_world))"
    unfolding sample_fixture_dir downloaded_line_def using blocked_makedirs by simp
  have "download_dataset sample_env blocked_world =
      Raised NotADirectoryError
        (print (downloaded_line ''/cache/ctooth'') (print ''Downloading CTooth dataset...'' blocked_world))"
    using errors_propagate [of sample_env blocked_world NotADirectoryError
        "print (downloaded_line ''/cache/ctooth'') (print ''Downloading CTooth dataset...'' blocked_world)"
        "''/cache/ctooth''" "print ''Downloading CTooth dataset...'' blocked_world"]
      dl_b mk_b
    by blast
  then have b: "download_dataset sample_env blocked_world =
     Raised NotADirectoryError
       (print ''Dataset downloaded to: /cache/ctooth''
          (print ''Downloading CTooth dataset...'' blocked_world))"
    by (simp add: downloaded_line_def)
  have dl_c: "download_step stale_env sample_world =
      Returned ''/cache/ctooth'' (print ''Downloading CTooth dataset...'' sample_world)"
    by (simp add: download_step_def stale_env_def sample_env_def)
  have td: "fixture_dir stale_env = ''/srv/app/server/test/images''"
    by (simp add: fixture_dir_def stale_env_def sample_env_def path_join_def join2_def dirname_def
        rstrip_slash_def)
  have mk_c: "makedirs (fixture_dir stale_env) True
      (print (downloaded_line ''/cache/ctooth'') (print ''Downloading CTooth dataset...'' sample_world)) =
      Returned () sample_made"
    unfolding td downloaded_line_def using sample_makedirs by simp
  have c: "download_dataset stale_env sample_world = Raised FileNotFoundError stale_stopped"
    using errors_propagate [of stale_env sample_world FileNotFoundError stale_stopped
        "''/cache/ctooth''" "print ''Downloading CTooth dataset...'' sample_world" "()" sample_made
        "[(''/cache/ctooth'', ''scan.panoramic.jpeg'')]" "(''/cache/ctooth'', ''gone_xray.png'')"
        "[(''/cache/ctooth'', ''scan.intraoral.png'')]" "()" stale_stopped]
      dl_c mk_c stale_selected stale_first_copy stale_second_copy
    unfolding td by blast
  have readme: "fs_files (print ''Downloading CTooth dataset...'' sample_world) ''/cache/ctooth/README.md'' \<noteq> None"
    by (simp add: print_def sample_world_def sample_files_def)
  have d: "fs_files (world_of (download_dataset stale_env sample_world)) ''/cache/ctooth/README.md'' \<noteq> None"
    using errors_propagate [of stale_env sample_world _ _
        "''/cache/ctooth''" "print ''Downloading CTooth dataset...'' sample_world" _ _ _ _ _ _ _
        "''/cache/ctooth/README.md''"]
      dl_c readme
    by blast
  have kept: "fs_files stale_stopped ''/srv/app/server/test/images/panoramic.jpg'' = Some ''pano-bytes''"
    "fs_files stale_stopped ''/srv/app/server/test/images/intraoral.jpg'' = None"
    by (simp_all add: stale_stopped_def sample_files_def)
  show ?thesis
    using a b c d kept by simp
qed


section \<open>What a run writes\<close>

lemma sample_slot_paths:
  "slot_paths ''/srv/app/server/test/images'' =
     {''/srv/app/server/test/images/xray.jpg'', ''/srv/app/server/test/images/panoramic.jpg'',
      ''/srv/app/server/test/images/intraoral.jpg''}"
  by (simp add: slot_paths_def path_join_def join2_def)

text \<open>
  C9, as the claim states it, fails: in the sample run \<open>/srv/app/server/test\<close> does not exist
  before, exists after, and is neither the fixture directory, nor one of its three slots, nor
  inside it.
\<close>

theorem writes_above_fixture_dir:
  "download_dataset sample_env sample_world = Returned () sample_final
   \<and> ''/srv/app/server/test'' \<notin> fs_dirs sample_world
   \<and> ''/srv/app/server/test'' \<in> fs_dirs sample_final
   \<and> ''/srv/app/server/test'' \<noteq> fixture_dir sample_env
   \<and> ''/srv/app/server/test'' \<notin> slot_paths (fixture_dir sample_env)
   \<and> \<not> prefix (fixture_dir sample_env) ''/srv/app/server/test''"
proof -
  have before: "''/srv/app/server/test'' \<notin> fs_dirs sample_world"
    by (simp add: sample_world_def)
  have after: "''/srv/app/server/test'' \<in> fs_dirs sample_final"
    by (simp add: sample_final_def)
  have apart: "''/srv/app/server/test'' \<noteq> fixture_dir sample_env"
    "''/srv/app/server/test'' \<notin> slot_paths (fixture_dir sample_env)"
    "\<not> prefix (fixture_dir sample_env) ''/srv/app/server/test''"
    unfolding sample_fixture_dir sample_slot_paths by simp_all
  show ?thesis
    using sample_run before after apart by blast
qed

text \<open>
  C9, amended. After the download, a run changes the content of a path only if the path is one
  of the three slots of the fixture directory and no directory, or lies in a slot that is a
  directory, under the last component of the source path of a file that passed the filters and
  was classified into that slot. Whether a slot is a directory is as the download left it. The
  run removes no directory, and creates no directory but the fixture directory and the
  directories above it.
\<close>

theorem writes_only_fixtures:
  assumes dl: "download_step E w0 = Returned path w1"
  shows "(\<forall>p. fs_files (world_of (download_dataset E w0)) p \<noteq> fs_files w1 p \<longrightarrow>
            (p \<in> slot_paths (fixture_dir E) \<and> p \<notin> fs_dirs w1)
            \<or> (\<exists>rf \<in> set (selected E path).
                  target_of (fixture_dir E) rf \<in> slot_paths (fixture_dir E) \<inter> fs_dirs w1
                  \<and> p = path_join (target_of (fixture_dir E) rf) [basename (source_of rf)]))
    \<and> fs_dirs w1 \<subseteq> fs_dirs (world_of (download_dataset E w0))
    \<and> fs_dirs (world_of (download_dataset E w0))
        \<subseteq> fs_dirs w1 \<union> set (fixture_dir E # ancestors (fixture_dir E))"
proof (cases "makedirs (fixture_dir E) True (print (downloaded_line path) w1)")
  case (Returned u3 w3)
  have run: "world_of (download_dataset E w0) =
      world_of (copy_each (fixture_dir E) (selected E path) w3)"
    unfolding run_after_download [OF dl] using Returned by simp
  have files: "fs_files w3 = fs_files w1"
    using makedirs_Returned(1) [OF Returned] by (simp add: print_fields)
  have lower: "fs_dirs w1 \<subseteq> fs_dirs w3"
    using makedirs_Returned(4) [OF Returned] by (simp add: print_fields)
  have upper: "fs_dirs w3 \<subseteq> fs_dirs w1 \<union> set (fixture_dir E # ancestors (fixture_dir E))"
    using makedirs_Returned(5) [OF Returned] by (simp add: print_fields)
  have "(p \<in> slot_paths (fixture_dir E) \<and> p \<notin> fs_dirs w1)
      \<or> (\<exists>rf \<in> set (selected E path).
            target_of (fixture_dir E) rf \<in> slot_paths (fixture_dir E) \<inter> fs_dirs w1
            \<and> p = path_join (target_of (fixture_dir E) rf) [basename (source_of rf)])"
    if changed: "fs_files (world_of (copy_each (fixture_dir E) (selected E path) w3)) p \<noteq> fs_files w1 p"
    for p
  proof -
    have "\<not> (\<forall>rf \<in> set (selected E path). dest_of (fixture_dir E) (fs_dirs w3) rf \<noteq> p)"
      using copy_each_frame [of "selected E path" "fixture_dir E" w3 p] changed files by auto
    then obtain rf where rf: "rf \<in> set (selected E path)"
        and land: "dest_of (fixture_dir E) (fs_dirs w3) rf = p"
      by blast
    have p: "dest_of (fixture_dir E) (fs_dirs w1) rf = p"
      using made_dirs_slots(3) [OF Returned] land by simp
    have slot: "target_of (fixture_dir E) rf \<in> slot_paths (fixture_dir E)"
      by (rule target_in_slots)
    show ?thesis
    proof (cases "target_of (fixture_dir E) rf \<in> fs_dirs w1")
      case True
      then have "p = path_join (target_of (fixture_dir E) rf) [basename (source_of rf)]"
        using p by (simp add: dest_of_def)
      then show ?thesis
        using True slot rf by blast
    next
      case False
      then have "p = target_of (fixture_dir E) rf"
        using p by (simp add: dest_of_def)
      then show ?thesis
        using False slot by blast
    qed
  qed
  then show ?thesis
    unfolding run copy_each_dirs using lower upper by blast
next
  case (Raised e3 w3)
  have "world_of (download_dataset E w0) = print (downloaded_line path) w1"
    unfolding run_after_download [OF dl] using Raised makedirs_Raised [OF Raised] by simp
  then show ?thesis
    by (auto simp: print_fields)
qed

theorem writes_only_fixtures_witness:
  "fs_files shadowed_final ''/cache/ctooth/dir/a/xray_002.png'' =
     fs_files shadowed_world ''/cache/ctooth/dir/a/xray_002.png''
   \<and> fs_files shadowed_final ''/srv/app/server/test/images/xray.jpg'' =
     fs_files shadowed_world ''/srv/app/server/test/images/xray.jpg''
   \<and> fs_dirs shadowed_world \<subseteq> fs_dirs shadowed_final
   \<and> fs_dirs shadowed_final \<subseteq>
       fs_dirs shadowed_world \<union> set (fixture_dir sample_env # ancestors (fixture_dir sample_env))"
proof -
  note T = writes_only_fixtures [OF shadowed_download, unfolded shadowed_run sample_fixture_dir]
  have dirs: "fs_dirs (print ''Downloading CTooth dataset...'' shadowed_world) = fs_dirs shadowed_world"
    and files: "fs_files (print ''Downloading CTooth dataset...'' shadowed_world) = fs_files shadowed_world"
    by (simp_all add: print_fields)
  have is_dir: "''/srv/app/server/test/images/xray.jpg'' \<in> fs_dirs shadowed_world"
    "''/srv/app/server/test/images/panoramic.jpg'' \<notin> fs_dirs shadowed_world"
    "''/srv/app/server/test/images/intraoral.jpg'' \<notin> fs_dirs shadowed_world"
    by (simp_all add: shadowed_world_def sample_world_def)
  have lands:
    "path_join ''/srv/app/server/test/images/xray.jpg''
       [basename (source_of (''/cache/ctooth/dir/a'', ''PANO_Xray_001.JPG''))] =
     ''/srv/app/server/test/images/xray.jpg/PANO_Xray_001.JPG''"
    "path_join ''/srv/app/server/test/images/xray.jpg''
       [basename (source_of (''/cache/ctooth/dir/a'', ''xray_002.png''))] =
     ''/srv/app/server/test/images/xray.jpg/xray_002.png''"
    by (simp_all add: sample_sources sample_names path_join_def join2_def)
  have source: "\<not> ((''/cache/ctooth/dir/a/xray_002.png'' \<in> slot_paths ''/srv/app/server/test/images''
        \<and> ''/cache/ctooth/dir/a/xray_002.png'' \<notin> fs_dirs (print ''Downloading CTooth dataset...'' shadowed_world))
      \<or> (\<exists>rf \<in> set (selected sample_env ''/cache/ctooth'').
            target_of ''/srv/app/server/test/images'' rf
              \<in> slot_paths ''/srv/app/server/test/images''
                \<inter> fs_dirs (print ''Downloading CTooth dataset...'' shadowed_world)
            \<and> ''/cache/ctooth/dir/a/xray_002.png'' =
                path_join (target_of ''/srv/app/server/test/images'' rf) [basename (source_of rf)]))"
    unfolding dirs sample_selected sample_slot_paths
    by (simp add: sample_targets is_dir lands)
  have slot: "\<not> ((''/srv/app/server/test/images/xray.jpg'' \<in> slot_paths ''/srv/app/server/test/images''
        \<and> ''/srv/app/server/test/images/xray.jpg'' \<notin> fs_dirs (print ''Downloading CTooth dataset...'' shadowed_world))
      \<or> (\<exists>rf \<in> set (selected sample_env ''/cache/ctooth'').
            target_of ''/srv/app/server/test/images'' rf
              \<in> slot_paths ''/srv/app/server/test/images''
                \<inter> fs_dirs (print ''Downloading CTooth dataset...'' shadowed_world)
            \<and> ''/srv/app/server/test/images/xray.jpg'' =
                path_join (target_of ''/srv/app/server/test/images'' rf) [basename (source_of rf)]))"
    unfolding dirs sample_selected sample_slot_paths
    by (simp add: sample_targets is_dir lands)
  have a: "fs_files shadowed_final ''/cache/ctooth/dir/a/xray_002.png'' =
      fs_files shadowed_world ''/cache/ctooth/dir/a/xray_002.png''"
    using T [THEN conjunct1, THEN spec, of "''/cache/ctooth/dir/a/xray_002.png''"] source files
    by auto
  have b: "fs_files shadowed_final ''/srv/app/server/test/images/xray.jpg'' =
      fs_files shadowed_world ''/srv/app/server/test/images/xray.jpg''"
    using T [THEN conjunct1, THEN spec, of "''/srv/app/server/test/images/xray.jpg''"] slot files
    by auto
  have c: "fs_dirs shadowed_world \<subseteq> fs_dirs shadowed_final
      \<and> fs_dirs shadowed_final \<subseteq>
          fs_dirs shadowed_world \<union> set (fixture_dir sample_env # ancestors (fixture_dir sample_env))"
    using T [THEN conjunct2] unfolding dirs by (simp add: sample_fixture_dir)
  show ?thesis
    using a b c by blast
qed

section \<open>Worlds with the same files and directories\<close>

lemma copyfile_alike:
  assumes "fs_files a = fs_files b" "fs_dirs a = fs_dirs b"
  shows "raised (copyfile src dst a) = raised (copyfile src dst b)"
    and "fs_files (world_of (copyfile src dst a)) = fs_files (world_of (copyfile src dst b))"
    and "stdout (world_of (copyfile src dst a)) = stdout a"
    and "stdout (world_of (copyfile src dst b)) = stdout b"
  using assms by (auto simp: copyfile_def split: option.splits)

lemma copy_step_alike:
  assumes "fs_files a = fs_files b" "fs_dirs a = fs_dirs b"
  shows "raised (copy_step td x a) = raised (copy_step td x b)"
    and "fs_files (world_of (copy_step td x a)) = fs_files (world_of (copy_step td x b))"
    and "\<exists>ls. stdout (world_of (copy_step td x a)) = stdout a @ ls
            \<and> stdout (world_of (copy_step td x b)) = stdout b @ ls"
proof -
  define d where "d = dest_of td (fs_dirs a) x"
  have sa: "copy_step td x a =
      (case copyfile (source_of x) d a of
         Raised e w' \<Rightarrow> Raised e w'
       | Returned u w' \<Rightarrow> Returned () (print (progress_line x) w'))"
    unfolding copy_step_def copy2_dest d_def by simp
  have sb: "copy_step td x b =
      (case copyfile (source_of x) d b of
         Raised e w' \<Rightarrow> Raised e w'
       | Returned u w' \<Rightarrow> Returned () (print (progress_line x) w'))"
    unfolding copy_step_def copy2_dest d_def assms(2) by simp
  note cf = copyfile_alike [OF assms, of "source_of x" d]
  show "raised (copy_step td x a) = raised (copy_step td x b)"
    unfolding sa sb using cf(1)
    by (cases "copyfile (source_of x) d a"; cases "copyfile (source_of x) d b") simp_all
  show "fs_files (world_of (copy_step td x a)) = fs_files (world_of (copy_step td x b))"
    unfolding sa sb using cf(1,2)
    by (cases "copyfile (source_of x) d a"; cases "copyfile (source_of x) d b")
      (simp_all add: print_fields)
  have "stdout (world_of (copy_step td x a)) = stdout a @ (if raised (copyfile (source_of x) d a) = None then [progress_line x] else [])"
    unfolding sa using cf(3)
    by (cases "copyfile (source_of x) d a") (simp_all add: print_fields)
  moreover have "stdout (world_of (copy_step td x b)) = stdout b @ (if raised (copyfile (source_of x) d a) = None then [progress_line x] else [])"
    unfolding sb using cf(1,4)
    by (cases "copyfile (source_of x) d b") (simp_all add: print_fields)
  ultimately show "\<exists>ls. stdout (world_of (copy_step td x a)) = stdout a @ ls
            \<and> stdout (world_of (copy_step td x b)) = stdout b @ ls"
    by blast
qed

lemma copy_each_alike:
  assumes "fs_files a = fs_files b" "fs_dirs a = fs_dirs b"
  shows "raised (copy_each td sel a) = raised (copy_each td sel b)
    \<and> fs_files (world_of (copy_each td sel a)) = fs_files (world_of (copy_each td sel b))
    \<and> (\<exists>ls. stdout (world_of (copy_each td sel a)) = stdout a @ ls
            \<and> stdout (world_of (copy_each td sel b)) = stdout b @ ls)"
  using assms
proof (induction sel arbitrary: a b)
  case Nil
  then show ?case by simp
next
  case (Cons x sel)
  note step = copy_step_alike [OF Cons.prems, of td x]
  show ?case
  proof (cases "copy_step td x a")
    case (Raised e a1)
    then obtain b1 where rb: "copy_step td x b = Raised e b1"
      using step(1) by (cases "copy_step td x b") simp_all
    show ?thesis
      using Raised rb step(2,3) by simp
  next
    case (Returned u a1)
    then obtain v b1 where rb: "copy_step td x b = Returned v b1"
      using step(1) by (cases "copy_step td x b") simp_all
    have files1: "fs_files a1 = fs_files b1"
      using step(2) Returned rb by simp
    have dirs1: "fs_dirs a1 = fs_dirs b1"
      using copy_step_dirs [OF Returned] copy_step_dirs [OF rb] Cons.prems(2) by simp
    obtain ls where ls: "stdout a1 = stdout a @ ls" "stdout b1 = stdout b @ ls"
      using step(3) Returned rb by auto
    obtain ls' where ls': "stdout (world_of (copy_each td sel a1)) = stdout a1 @ ls'"
        "stdout (world_of (copy_each td sel b1)) = stdout b1 @ ls'"
      using Cons.IH [OF files1 dirs1] by blast
    have "stdout (world_of (copy_each td sel a1)) = stdout a @ (ls @ ls')"
      "stdout (world_of (copy_each td sel b1)) = stdout b @ (ls @ ls')"
      using ls ls' by simp_all
    then have "\<exists>k. stdout (world_of (copy_each td sel a1)) = stdout a @ k
        \<and> stdout (world_of (copy_each td sel b1)) = stdout b @ k"
      by blast
    then show ?thesis
      using Returned rb Cons.IH [OF files1 dirs1] by simp
  qed
qed

lemma makedirs_alike:
  assumes "fs_files a = fs_files b" "fs_dirs a = fs_dirs b"
  shows "raised (makedirs name ok a) = raised (makedirs name ok b)"
    and "fs_dirs (world_of (makedirs name ok a)) = fs_dirs (world_of (makedirs name ok b))"
  using assms by (simp_all add: makedirs_def)

lemma makedirs_dirs_Raised: "raised (makedirs name ok w) = Some e \<Longrightarrow> makedirs name ok w = Raised e w"
  by (simp add: makedirs_def split: if_splits)

section \<open>Running twice\<close>

lemma copy_each_Raised_split:
  assumes "copy_each td sel w = Raised e w'"
  shows "\<exists>pre x rest u. sel = pre @ x # rest \<and> copy_each td pre w = Returned u w'
    \<and> copy_step td x w' = Raised e w'"
  using assms
proof (induction sel arbitrary: w)
  case Nil
  then show ?case by simp
next
  case (Cons y sel)
  show ?case
  proof (cases "copy_step td y w")
    case (Raised e1 w1)
    then have "e1 = e" "w1 = w'" "w1 = w"
      using Cons.prems copy_step_Raised [OF Raised] by simp_all
    then have "y # sel = [] @ y # sel \<and> copy_each td [] w = Returned () w'
        \<and> copy_step td y w' = Raised e w'"
      using Raised by simp
    then show ?thesis by blast
  next
    case (Returned u1 w1)
    then have "copy_each td sel w1 = Raised e w'"
      using Cons.prems by simp
    then obtain pre x rest u where split: "sel = pre @ x # rest" "copy_each td pre w1 = Returned u w'"
        "copy_step td x w' = Raised e w'"
      using Cons.IH by blast
    have "y # sel = (y # pre) @ x # rest \<and> copy_each td (y # pre) w = Returned u w'
        \<and> copy_step td x w' = Raised e w'"
      using split Returned by simp
    then show ?thesis by blast
  qed
qed

text \<open>
  Copies that all returned, run again on the files they left: they return again and leave
  the files as they are.
\<close>

lemma rerun_returned:
  assumes copies: "copy_each td sel w = Returned u wl"
    and names: "list_all (\<lambda>rf. bare (snd rf)) sel"
    and files_v: "fs_files v = fs_files wl"
    and dirs_v: "fs_dirs v = fs_dirs wl"
  shows "\<exists>v'. copy_each td sel v = Returned () v' \<and> fs_files v' = fs_files v"
proof -
  have dirs: "fs_dirs v = fs_dirs w"
    using dirs_v copy_each_Returned_dirs [OF copies] by simp
  have clear: "\<forall>rf \<in> set sel. \<forall>rf' \<in> set sel. source_of rf \<noteq> dest_of td (fs_dirs w) rf'"
    by (rule returned_sources_clear [OF copies names])
  have kept: "\<And>rf. rf \<in> set sel \<Longrightarrow> fs_files wl (source_of rf) = fs_files w (source_of rf)"
  proof -
    fix rf assume "rf \<in> set sel"
    then have "\<forall>rf' \<in> set sel. dest_of td (fs_dirs w) rf' \<noteq> source_of rf"
      using clear by fastforce
    then have "fs_files (world_of (copy_each td sel w)) (source_of rf) = fs_files w (source_of rf)"
      by (rule copy_each_frame)
    then show "fs_files wl (source_of rf) = fs_files w (source_of rf)"
      using copies by simp
  qed
  have "\<forall>rf \<in> set sel. fs_files v (source_of rf) \<noteq> None
      \<and> writable (fs_dirs v) (dest_of td (fs_dirs v) rf)"
  proof
    fix rf assume rf: "rf \<in> set sel"
    have "fs_files w (source_of rf) \<noteq> None"
      by (rule copy_each_sources [OF copies clear rf])
    then show "fs_files v (source_of rf) \<noteq> None
        \<and> writable (fs_dirs v) (dest_of td (fs_dirs v) rf)"
      using kept [OF rf] copy_each_distinct [OF copies rf] by (simp add: files_v dirs)
  qed
  moreover have clear_v: "\<forall>rf \<in> set sel. \<forall>rf' \<in> set sel. source_of rf \<noteq> dest_of td (fs_dirs v) rf'"
    using clear by (simp add: dirs)
  ultimately obtain v' where again: "copy_each td sel v = Returned () v'"
    using copy_each_succeeds by blast
  have "fs_files v' p = fs_files v p" for p
  proof (cases "filter (\<lambda>rf. dest_of td (fs_dirs w) rf = p) sel = []")
    case True
    then show ?thesis
      using copy_each_final [OF again clear_v, of p] by (simp add: dirs)
  next
    case False
    define x where "x = last (filter (\<lambda>rf. dest_of td (fs_dirs w) rf = p) sel)"
    have "x \<in> set (filter (\<lambda>rf. dest_of td (fs_dirs w) rf = p) sel)"
      unfolding x_def using False by (rule last_in_set)
    then have x: "x \<in> set sel" by simp
    have "fs_files v' p = fs_files v (source_of x)"
      using copy_each_final [OF again clear_v, of p] False by (simp add: x_def dirs)
    moreover have "fs_files wl p = fs_files w (source_of x)"
      using copy_each_final [OF copies clear, of p] False by (simp add: x_def)
    ultimately show ?thesis
      using kept [OF x] by (simp add: files_v)
  qed
  then have "fs_files v' = fs_files v" by (rule ext)
  then show ?thesis
    using again by blast
qed

text \<open>The same for copies that stopped at a raise: they stop again at the same raise.\<close>

lemma rerun_copies:
  assumes names: "list_all (\<lambda>rf. bare (snd rf)) sel"
    and files_v: "fs_files v = fs_files (world_of (copy_each td sel w))"
    and dirs_v: "fs_dirs v = fs_dirs w"
  shows "fs_files (world_of (copy_each td sel v)) = fs_files v
    \<and> raised (copy_each td sel v) = raised (copy_each td sel w)"
proof (cases "copy_each td sel w")
  case (Returned u wl)
  then obtain v' where "copy_each td sel v = Returned () v'" "fs_files v' = fs_files v"
    using rerun_returned [OF Returned names, of v] files_v dirs_v copy_each_Returned_dirs [OF Returned]
    by auto
  then show ?thesis
    using Returned by simp
next
  case (Raised e wl)
  then obtain pre x rest u where split: "sel = pre @ x # rest"
      and pre: "copy_each td pre w = Returned u wl" and stop: "copy_step td x wl = Raised e wl"
    using copy_each_Raised_split by blast
  have "list_all (\<lambda>rf. bare (snd rf)) pre"
    using names split by simp
  moreover have dirs_wl: "fs_dirs v = fs_dirs wl"
    using dirs_v copy_each_Returned_dirs [OF pre] by simp
  ultimately obtain v' where again: "copy_each td pre v = Returned () v'"
      and same: "fs_files v' = fs_files v"
    using rerun_returned [OF pre, of v] files_v Raised by auto
  have "fs_files v' = fs_files wl"
    using same files_v Raised by simp
  moreover have "fs_dirs v' = fs_dirs wl"
    using copy_each_Returned_dirs [OF again] dirs_wl by simp
  ultimately have "raised (copy_step td x v') = Some e"
    using copy_step_alike(1) [of v' wl td x] stop by simp
  then obtain v'' where "copy_step td x v' = Raised e v''"
    by (cases "copy_step td x v'") simp_all
  then have "copy_step td x v' = Raised e v'"
    using copy_step_Raised by blast
  then have "copy_each td sel v = Raised e v'"
    unfolding split using again by (simp add: copy_each_append)
  then show ?thesis
    using Raised same by simp
qed

text \<open>
  C6. Run the installer, then run it again against the unchanged download result: the
  collaborator returns the same root and leaves files and directories as the first run left
  them, and the walk is the same. The second run ends as the first did (it returns, or raises
  the same error) and leaves every file and directory as the first run left it. Timestamps
  are not modelled; standard output grows.
\<close>

theorem idempotent_rerun:
  fixes E :: env and w0 :: world
  defines "w1 \<equiv> world_of (download_dataset E w0)"
  assumes dl1: "download_step E w0 = Returned path wa"
    and dl2: "download_step E w1 = Returned path wb"
    and same_files: "fs_files wb = fs_files w1"
    and same_dirs: "fs_dirs wb = fs_dirs w1"
    and names: "bare_names (os_walk E path)"
  shows "fs_files (world_of (download_dataset E w1)) = fs_files w1
    \<and> fs_dirs (world_of (download_dataset E w1)) = fs_dirs w1
    \<and> raised (download_dataset E w1) = raised (download_dataset E w0)"
proof -
  define td where "td = fixture_dir E"
  define sel where "sel = selected E path"
  define v where "v = print (downloaded_line path) wb"
  have run1: "download_dataset E w0 =
      (case makedirs td True (print (downloaded_line path) wa) of
         Raised e w \<Rightarrow> Raised e w
       | Returned u w3 \<Rightarrow> copy_each td sel w3)"
    unfolding td_def sel_def by (rule run_after_download [OF dl1])
  have run2: "download_dataset E w1 =
      (case makedirs td True v of
         Raised e w \<Rightarrow> Raised e w
       | Returned u w3 \<Rightarrow> copy_each td sel w3)"
    unfolding td_def sel_def v_def by (rule run_after_download [OF dl2])
  have files_v: "fs_files v = fs_files w1" and dirs_v: "fs_dirs v = fs_dirs w1"
    by (simp_all add: v_def print_fields same_files same_dirs)
  show ?thesis
  proof (cases "makedirs td True (print (downloaded_line path) wa)")
    case (Raised e w)
    have first: "download_dataset E w0 = Raised e (print (downloaded_line path) wa)"
      unfolding run1 using Raised makedirs_Raised [OF Raised] by simp
    then have w1: "w1 = print (downloaded_line path) wa"
      by (simp add: w1_def)
    have "raised (makedirs td True v) = Some e"
      using makedirs_alike(1) [of v "print (downloaded_line path) wa" td True]
        files_v dirs_v Raised
      by (simp add: w1)
    then have "makedirs td True v = Raised e v"
      by (rule makedirs_dirs_Raised)
    then have "download_dataset E w1 = Raised e v"
      unfolding run2 by simp
    then show ?thesis
      using first files_v dirs_v by simp
  next
    case (Returned u w3)
    have first: "download_dataset E w0 = copy_each td sel w3"
      unfolding run1 using Returned by simp
    then have w1: "w1 = world_of (copy_each td sel w3)"
      by (simp add: w1_def)
    have "td \<in> fs_dirs w3"
      by (rule makedirs_Returned(3) [OF Returned])
    then have "td \<in> fs_dirs v"
      by (simp add: dirs_v w1 copy_each_dirs)
    then have "makedirs td True v = Returned () v"
      by (rule makedirs_exists)
    then have second: "download_dataset E w1 = copy_each td sel v"
      unfolding run2 by simp
    have bare: "list_all (\<lambda>rf. bare (snd rf)) sel"
      unfolding sel_def by (rule selected_bare [OF names])
    have "fs_files v = fs_files (world_of (copy_each td sel w3))"
      using files_v by (simp add: w1)
    moreover have "fs_dirs v = fs_dirs w3"
      using dirs_v by (simp add: w1 copy_each_dirs)
    ultimately have "fs_files (world_of (copy_each td sel v)) = fs_files v
        \<and> raised (copy_each td sel v) = raised (copy_each td sel w3)"
      by (rule rerun_copies [OF bare])
    then show ?thesis
      unfolding second first using files_v dirs_v by (simp add: copy_each_dirs)
  qed
qed

lemma stale_run: "download_dataset stale_env sample_world = Raised FileNotFoundError stale_stopped"
proof -
  have dl: "download_step stale_env sample_world =
      Returned ''/cache/ctooth'' (print ''Downloading CTooth dataset...'' sample_world)"
    by (simp add: download_step_def stale_env_def sample_env_def)
  have td: "fixture_dir stale_env = ''/srv/app/server/test/images''"
    by (simp add: fixture_dir_def stale_env_def sample_env_def path_join_def join2_def dirname_def
        rstrip_slash_def)
  have step: "copy_step ''/srv/app/server/test/images'' (''/cache/ctooth'', ''gone_xray.png'') stale_stopped =
      Raised FileNotFoundError stale_stopped"
    using stale_second_copy by (simp add: copy_step_def)
  show ?thesis
    unfolding run_after_download [OF dl] td stale_selected copy_each_append
    using sample_makedirs stale_first_copy step by (simp add: downloaded_line_def)
qed

theorem idempotent_rerun_witness:
  "fs_files (world_of (download_dataset sample_env sample_final)) = fs_files sample_final
   \<and> fs_dirs (world_of (download_dataset sample_env sample_final)) = fs_dirs sample_final
   \<and> raised (download_dataset sample_env sample_final) = None
   \<and> fs_files (world_of (download_dataset stale_env stale_stopped)) = fs_files stale_stopped
   \<and> fs_dirs (world_of (download_dataset stale_env stale_stopped)) = fs_dirs stale_stopped
   \<and> raised (download_dataset stale_env stale_stopped) = Some FileNotFoundError
   \<and> fs_files (world_of (download_dataset sample_env shadowed_final)) = fs_files shadowed_final
   \<and> fs_dirs (world_of (download_dataset sample_env shadowed_final)) = fs_dirs shadowed_final
   \<and> raised (download_dataset sample_env shadowed_final) = None"
proof -
  have first_d: "world_of (download_dataset sample_env shadowed_world) = shadowed_final"
    by (simp add: shadowed_run)
  have dl_d: "download_step sample_env (world_of (download_dataset sample_env shadowed_world)) =
      Returned ''/cache/ctooth'' (print ''Downloading CTooth dataset...'' shadowed_final)"
    unfolding first_d by (simp add: download_step_def sample_env_def)
  have dir: "fs_files (world_of (download_dataset sample_env shadowed_final)) = fs_files shadowed_final
      \<and> fs_dirs (world_of (download_dataset sample_env shadowed_final)) = fs_dirs shadowed_final
      \<and> raised (download_dataset sample_env shadowed_final) = None"
    using idempotent_rerun [OF shadowed_download dl_d _ _ sample_bare]
    unfolding first_d shadowed_run by (simp add: print_fields)
  have first: "world_of (download_dataset sample_env sample_world) = sample_final"
    by (simp add: sample_run)
  have dl2: "download_step sample_env (world_of (download_dataset sample_env sample_world)) =
      Returned ''/cache/ctooth'' (print ''Downloading CTooth dataset...'' sample_final)"
    unfolding first by (simp add: download_step_def sample_env_def)
  have good: "fs_files (world_of (download_dataset sample_env sample_final)) = fs_files sample_final
      \<and> fs_dirs (world_of (download_dataset sample_env sample_final)) = fs_dirs sample_final
      \<and> raised (download_dataset sample_env sample_final) = None"
    using idempotent_rerun [OF sample_download dl2 _ _ sample_bare]
    unfolding first sample_run by (simp add: print_fields)
  have stopped: "world_of (download_dataset stale_env sample_world) = stale_stopped"
    by (simp add: stale_run)
  have dl_s: "download_step stale_env sample_world =
      Returned ''/cache/ctooth'' (print ''Downloading CTooth dataset...'' sample_world)"
    by (simp add: download_step_def stale_env_def sample_env_def)
  have dl_s2: "download_step stale_env (world_of (download_dataset stale_env sample_world)) =
      Returned ''/cache/ctooth'' (print ''Downloading CTooth dataset...'' stale_stopped)"
    unfolding stopped by (simp add: download_step_def stale_env_def sample_env_def)
  have bare_s: "bare_names (os_walk stale_env ''/cache/ctooth'')"
    by (simp add: bare_names_def stale_env_def walk_files_def bare_def)
  have bad: "fs_files (world_of (download_dataset stale_env stale_stopped)) = fs_files stale_stopped
      \<and> fs_dirs (world_of (download_dataset stale_env stale_stopped)) = fs_dirs stale_stopped
      \<and> raised (download_dataset stale_env stale_stopped) = Some FileNotFoundError"
    using idempotent_rerun [OF dl_s dl_s2 _ _ bare_s]
    unfolding stopped stale_run by (simp add: print_fields)
  show ?thesis
    using good bad dir by simp
qed

section \<open>Two runs on the same filesystem\<close>

text \<open>
  C10. Two runs with the same download root, the same walk and, when the download returns, the
  same files and directories end alike: the same file contents (the three slots among them),
  the same directories, the same outcome (both return, or both raise the same error), and the
  same lines printed after the download; for runs that return these are the download line
  and one line per copy, in walk order. What was printed before has no influence.
\<close>

theorem same_inputs_same_result:
  assumes dl_a: "download_step E a0 = Returned path a1"
    and dl_b: "download_step E b0 = Returned path b1"
    and same_files: "fs_files a1 = fs_files b1"
    and same_dirs: "fs_dirs a1 = fs_dirs b1"
  shows "fs_files (world_of (download_dataset E a0)) = fs_files (world_of (download_dataset E b0))
    \<and> fs_dirs (world_of (download_dataset E a0)) = fs_dirs (world_of (download_dataset E b0))
    \<and> raised (download_dataset E a0) = raised (download_dataset E b0)
    \<and> (\<exists>ls. stdout (world_of (download_dataset E a0)) = stdout a1 @ ls
           \<and> stdout (world_of (download_dataset E b0)) = stdout b1 @ ls)
    \<and> (raised (download_dataset E a0) = None \<longrightarrow>
         stdout (world_of (download_dataset E a0)) =
           stdout a1 @ downloaded_line path # map progress_line (selected E path))"
proof -
  define td where "td = fixture_dir E"
  define sel where "sel = selected E path"
  define a2 where "a2 = print (downloaded_line path) a1"
  define b2 where "b2 = print (downloaded_line path) b1"
  have run_a: "download_dataset E a0 =
      (case makedirs td True a2 of Raised e w \<Rightarrow> Raised e w | Returned u w3 \<Rightarrow> copy_each td sel w3)"
    unfolding td_def sel_def a2_def by (rule run_after_download [OF dl_a])
  have run_b: "download_dataset E b0 =
      (case makedirs td True b2 of Raised e w \<Rightarrow> Raised e w | Returned u w3 \<Rightarrow> copy_each td sel w3)"
    unfolding td_def sel_def b2_def by (rule run_after_download [OF dl_b])
  have files2: "fs_files a2 = fs_files b2" and dirs2: "fs_dirs a2 = fs_dirs b2"
    by (simp_all add: a2_def b2_def print_fields same_files same_dirs)
  have out2: "stdout a2 = stdout a1 @ [downloaded_line path]" "stdout b2 = stdout b1 @ [downloaded_line path]"
    by (simp_all add: a2_def b2_def print_fields)
  note mk = makedirs_alike [OF files2 dirs2, of td True]
  show ?thesis
  proof (cases "makedirs td True a2")
    case (Raised e w)
    then have ra: "makedirs td True a2 = Raised e a2"
      using makedirs_Raised by blast
    have "raised (makedirs td True b2) = Some e"
      using mk(1) Raised by simp
    then have rb: "makedirs td True b2 = Raised e b2"
      by (rule makedirs_dirs_Raised)
    have "stdout a2 = stdout a1 @ [downloaded_line path] \<and> stdout b2 = stdout b1 @ [downloaded_line path]"
      using out2 by simp
    then have "\<exists>ls. stdout a2 = stdout a1 @ ls \<and> stdout b2 = stdout b1 @ ls"
      by blast
    then show ?thesis
      unfolding run_a run_b ra rb using files2 dirs2 by simp
  next
    case (Returned u a3)
    have "raised (makedirs td True b2) = None"
      using mk(1) Returned by simp
    then obtain v b3 where rb: "makedirs td True b2 = Returned v b3"
      by (cases "makedirs td True b2") simp_all
    have files3: "fs_files a3 = fs_files b3"
      using makedirs_Returned(1) [OF Returned] makedirs_Returned(1) [OF rb] files2 by simp
    have dirs3: "fs_dirs a3 = fs_dirs b3"
      using mk(2) Returned rb by simp
    have out3: "stdout a3 = stdout a1 @ [downloaded_line path]" "stdout b3 = stdout b1 @ [downloaded_line path]"
      using makedirs_Returned(2) [OF Returned] makedirs_Returned(2) [OF rb] out2 by simp_all
    note alike = copy_each_alike [OF files3 dirs3, of td sel]
    obtain ls where ls: "stdout (world_of (copy_each td sel a3)) = stdout a3 @ ls"
        "stdout (world_of (copy_each td sel b3)) = stdout b3 @ ls"
      using alike by blast
    have "stdout (world_of (copy_each td sel a3)) = stdout a1 @ (downloaded_line path # ls)
        \<and> stdout (world_of (copy_each td sel b3)) = stdout b1 @ (downloaded_line path # ls)"
      using ls out3 by simp
    then have lines: "\<exists>k. stdout (world_of (copy_each td sel a3)) = stdout a1 @ k
        \<and> stdout (world_of (copy_each td sel b3)) = stdout b1 @ k"
      by blast
    have full: "raised (copy_each td sel a3) = None \<longrightarrow>
        stdout (world_of (copy_each td sel a3)) = stdout a1 @ downloaded_line path # map progress_line sel"
    proof
      assume "raised (copy_each td sel a3) = None"
      then obtain x a' where r: "copy_each td sel a3 = Returned x a'"
        by (cases "copy_each td sel a3") simp_all
      show "stdout (world_of (copy_each td sel a3)) = stdout a1 @ downloaded_line path # map progress_line sel"
        using copy_each_stdout [OF r] r out3 by simp
    qed
    show ?thesis
      unfolding run_a run_b Returned rb
      using alike lines full dirs3 by (simp add: copy_each_dirs sel_def)
  qed
qed

theorem same_inputs_same_result_witness:
  "fs_files (world_of (download_dataset sample_env later_world)) = fs_files sample_final
   \<and> fs_dirs (world_of (download_dataset sample_env later_world)) = fs_dirs sample_final
   \<and> raised (download_dataset sample_env later_world) = None
   \<and> stdout (world_of (download_dataset sample_env later_world)) =
       ''an earlier line'' # stdout sample_final"
proof -
  have dl: "download_step sample_env later_world =
      Returned ''/cache/ctooth'' (print ''Downloading CTooth dataset...'' later_world)"
    by (simp add: download_step_def sample_env_def)
  have same: "fs_files (print ''Downloading CTooth dataset...'' sample_world) =
      fs_files (print ''Downloading CTooth dataset...'' later_world)"
    "fs_dirs (print ''Downloading CTooth dataset...'' sample_world) =
      fs_dirs (print ''Downloading CTooth dataset...'' later_world)"
    by (simp_all add: print_fields later_world_def)
  note T = same_inputs_same_result [OF sample_download dl same, unfolded sample_run]
  have out: "stdout (print ''Downloading CTooth dataset...'' sample_world) = [''Downloading CTooth dataset...'']"
    "stdout (print ''Downloading CTooth dataset...'' later_world) =
       [''an earlier line'', ''Downloading CTooth dataset...'']"
    "stdout sample_final = ''Downloading CTooth dataset...'' # tl (stdout sample_final)"
    by (simp_all add: print_fields sample_world_def later_world_def sample_final_def)
  obtain ls where ls: "stdout sample_final = [''Downloading CTooth dataset...''] @ ls"
      "stdout (world_of (download_dataset sample_env later_world)) =
         [''an earlier line'', ''Downloading CTooth dataset...''] @ ls"
    using T out(1,2) by auto
  have "stdout (world_of (download_dataset sample_env later_world)) = ''an earlier line'' # stdout sample_final"
    using ls by simp
  then show ?thesis
    using T by simp
qed

end
